theory Spec2Isabelle
  imports Complex_Main
begin

section \<open>Go library functions used by entrypoint.go\<close>

text \<open>
  Go's \<open>error\<close> values are carried as their message. A \<open>time.Time\<close> is the instant it
  denotes, counted in nanoseconds from the Unix epoch (the representable range of
  \<open>time.Time\<close>, billions of years, is not bounded here); a \<open>time.Duration\<close> is an
  \<open>int64\<close> count of nanoseconds. Go's \<open>int\<close> counters (chunk index, record count,
  \<open>len\<close>) are mathematical integers: each unit counted is a file of the directory or a
  record held in memory.
\<close>

type_synonym err = string
type_synonym Time = int
type_synonym Duration = int

definition maxDuration :: Duration where
  "maxDuration = 9223372036854775807"

definition minDuration :: Duration where
  "minDuration = - 9223372036854775808"

definition Second :: Duration where
  "Second = 1000000000"

definition Hour :: Duration where
  "Hour = 3600 * Second"

text \<open>Go's integer division truncates toward zero.\<close>

definition go_div :: "int \<Rightarrow> int \<Rightarrow> int" where
  "go_div a b = sgn a * sgn b * (\<bar>a\<bar> div \<bar>b\<bar>)"

text \<open>\<open>t.Sub(u)\<close>: the duration \<open>t - u\<close>, saturated at the largest and smallest Duration.\<close>

definition time_Sub :: "Time \<Rightarrow> Time \<Rightarrow> Duration" where
  "time_Sub t u =
     (let d = t - u in
      if d > maxDuration then maxDuration
      else if d < minDuration then minDuration
      else d)"

definition time_Add :: "Time \<Rightarrow> Duration \<Rightarrow> Time" where
  "time_Add t d = t + d"

text \<open>\<open>time.Unix(sec, 0)\<close>.\<close>

definition time_Unix :: "int \<Rightarrow> Time" where
  "time_Unix sec = sec * Second"

text \<open>\<open>time.Since(start)\<close>, with the monotonic clock reading \<open>clock\<close> at the call.\<close>

definition time_Since :: "Time \<Rightarrow> Time \<Rightarrow> Duration" where
  "time_Since start clock = time_Sub clock start"

definition Milliseconds :: "Duration \<Rightarrow> int" where
  "Milliseconds d = go_div d 1000000"

text \<open>The zero \<open>time.Time\<close>: January 1 of year 1, 00:00:00 UTC.\<close>

definition zeroTime :: Time where
  "zeroTime = - 62135596800 * Second"

text \<open>
  \<open>t.Format(time.RFC3339)\<close> prints an instant without its fraction of a second. The text
  is identified with the instant it denotes.
\<close>

definition Format_RFC3339 :: "Time \<Rightarrow> Time" where
  "Format_RFC3339 t = (t div Second) * Second"

text \<open>\<open>strconv.Itoa\<close>.\<close>

fun decimal :: "nat \<Rightarrow> string" where
  "decimal n =
     (if n < 10 then [''0123456789'' ! n]
      else decimal (n div 10) @ [''0123456789'' ! (n mod 10)])"

declare decimal.simps [simp del]

definition Itoa :: "int \<Rightarrow> string" where
  "Itoa i = (if i < 0 then CHR ''-'' # decimal (nat (- i)) else decimal (nat i))"

text \<open>
  \<open>strings.Split(s, sep)\<close>: \<open>cutAt\<close> is the slicing at \<open>strings.Index(s, sep)\<close>, the first
  occurrence of a non-empty separator. With an empty separator Go splits after each
  UTF-8 sequence; the model splits after each byte (entrypoint.go never does that).
\<close>

fun cutAt :: "string \<Rightarrow> string \<Rightarrow> (string \<times> string) option" where
  "cutAt sep [] = None"
| "cutAt sep (c # cs) =
     (if take (length sep) (c # cs) = sep then Some ([], drop (length sep) (c # cs))
      else (case cutAt sep cs of
              None \<Rightarrow> None
            | Some (a, b) \<Rightarrow> Some (c # a, b)))"

function strings_Split :: "string \<Rightarrow> string \<Rightarrow> string list" where
  "strings_Split s sep =
     (if sep = [] then map (\<lambda>c. [c]) s
      else (case cutAt sep s of
              None \<Rightarrow> [s]
            | Some (a, rest) \<Rightarrow> a # strings_Split rest sep))"
  by pat_completeness auto
termination
proof (relation "measure (\<lambda>(s, sep). length s)")
  show "wf (measure (\<lambda>(s, sep). length s))" by simp
next
  fix s sep :: string and x :: "string \<times> string" and a rest :: string
  assume sep: "sep \<noteq> []" and cut: "cutAt sep s = Some x" and x: "(a, rest) = x"
  have shorter: "cutAt sep t = Some (u, v) \<Longrightarrow> length v < length t" for t u v
  proof (induction t arbitrary: u v)
    case Nil
    then show ?case by simp
  next
    case (Cons c cs)
    show ?case
    proof (cases "take (length sep) (c # cs) = sep")
      case True
      with Cons.prems sep show ?thesis by (cases sep) auto
    next
      case False
      with Cons.prems obtain u' where "cutAt sep cs = Some (u', v)"
        by (auto split: option.splits)
      with Cons.IH have "length v < length cs" by blast
      then show ?thesis by simp
    qed
  qed
  from cut x have "cutAt sep s = Some (a, rest)" by simp
  from shorter [OF this]
  show "((rest, sep), (s, sep)) \<in> measure (\<lambda>(s, sep). length s)" by simp
qed

declare strings_Split.simps [simp del]

section \<open>Data model\<close>

record Conn =
  Ssid :: string
  Rssi :: real

record Reading =
  UserId :: string
  LastUpdatedTime :: int
  Connection :: Conn

record ReadingFile =
  Response :: "Reading list"

record QueryResult =
  QueryId :: int
  DurationMs :: int
  Description :: string

text \<open>
  The element type of \<open>BenchmarkResults.Ingestion\<close> is an anonymous struct in the source;
  its \<open>DurationMs\<close> field is named \<open>IngestDurationMs\<close> here, apart from
  \<open>QueryResult.DurationMs\<close>.
\<close>

record IngestionSample =
  IngestDurationMs :: int
  NRecords :: int

record BenchmarkResults =
  DbType :: string
  Ingestion :: "IngestionSample list"
  Queries :: "QueryResult list"

section \<open>The outside world\<close>

text \<open>
  A row as the adapters send it: user id, \<open>time.Unix(LastUpdatedTime, 0)\<close>, rssi, ssid.
\<close>

type_synonym row = "string \<times> Time \<times> real \<times> string"

definition toRow :: "Reading \<Rightarrow> row" where
  "toRow reading =
     (UserId reading, time_Unix (LastUpdatedTime reading),
      Rssi (Connection reading), Ssid (Connection reading))"

text \<open>The schema statements of the adapters, by their effect on the catalogue.\<close>

datatype ddl =
    CreateTable string
  | CreateTableIfNotExists string
  | CreateIndexIfNotExists string
  | CreateHypertableIfNotExists string

text \<open>
  Every call that leaves the process. Ingestion calls carry the index of the chunk they
  send; a query call carries the query identifier and the time arguments bound to it.
\<close>

datatype call =
    PoolNew string
  | LineSenderFromConf string
  | Ping
  | Exec "ddl list"
  | CopyFrom int "row list"
  | LineAt int row
  | LineFlush int
  | SendBatch int "row list"
  | TxBegin int
  | TxPrepare int
  | StmtExec int int row
  | TxCommit int
  | WritePoints int "row list"
  | QueryRow int "Time list"
  | Query int "Time list"
  | FluxQuery int "Time list"
  | FluxQueryMax
  | Create string
  | Encode string

text \<open>
  The answers of the outside world, fixed for one run: whether a call fails and how long
  it takes (nanoseconds), the row query 1 returns, the records the two InfluxDB queries
  for the time bounds return, and the chunk directory. \<open>fsOpen\<close> gives, for a path, the
  failure of \<open>os.Open\<close> or the outcome of decoding the file's JSON.
\<close>

record env =
  fault :: "call \<Rightarrow> err option"
  latency :: "call \<Rightarrow> nat"
  bounds :: "Time \<times> Time"
  minRecords :: "Time list"
  maxRecords :: "Time list"
  fsOpen :: "string \<Rightarrow> err + (err + ReadingFile)"
  fsReadDir :: "string \<Rightarrow> err + string list"

datatype artifact = Created | Encoded BenchmarkResults

text \<open>
  What a run did, in program order: the calls with their outcome, the chunk loads with
  their outcome, and the time values the runner derived itself.
\<close>

datatype event =
    Called call "err option"
  | Loaded int "err option"
  | Assigned string Time

text \<open>
  The state a run changes: the relations of the backend's catalogue, the files written,
  the monotonic clock, and the events so far.
\<close>

record world =
  catalog :: "string list"
  files :: "string \<Rightarrow> artifact option"
  clock :: Time
  events :: "event list"

section \<open>The chunked dataset reader\<close>

definition loadDataChunk :: "env \<Rightarrow> int \<Rightarrow> err + (bool \<times> ReadingFile)" where
  "loadDataChunk E currentChunk =
     (case fsOpen E (''../data/readings/readings_'' @ Itoa currentChunk @ ''.json'') of
        Inl e \<Rightarrow> Inl e
      | Inr fd \<Rightarrow>
          (case fd of
             Inl e \<Rightarrow> Inl e
           | Inr data \<Rightarrow>
               (case fsReadDir E ''../data/readings'' of
                  Inl e \<Rightarrow> Inl e
                | Inr filesInDirectory \<Rightarrow>
                    if currentChunk + 1 < int (length filesInDirectory)
                    then Inr (True, data)
                    else Inr (False, data))))"

section \<open>Statements\<close>

text \<open>
  A statement takes the state and gives the error it returns with, if any, and the state
  it leaves. \<open>seq\<close> runs statements in program order up to the first \<open>return err\<close>.
\<close>

type_synonym 's stmt = "'s \<Rightarrow> err option \<times> 's"

fun seq :: "'s stmt list \<Rightarrow> 's stmt" where
  "seq [] s = (None, s)"
| "seq (c # cs) s =
     (case c s of
        (Some e, s') \<Rightarrow> (Some e, s')
      | (None, s') \<Rightarrow> seq cs s')"

definition extcall :: "env \<Rightarrow> call \<Rightarrow> world stmt" where
  "extcall E c w =
     (fault E c,
      w\<lparr>clock := time_Add (clock w) (int (latency E c)),
        events := events w @ [Called c (fault E c)]\<rparr>)"

text \<open>
  A call whose outcome the caller cannot see (InfluxDB's non-blocking \<open>WritePoint\<close> and
  \<open>Flush\<close> return nothing).
\<close>

definition extcallUnchecked :: "env \<Rightarrow> call \<Rightarrow> world stmt" where
  "extcallUnchecked E c w = (None, snd (extcall E c w))"

text \<open>
  The backend's catalogue under a schema statement: creating a relation that exists is an
  error unless the statement says \<open>IF NOT EXISTS\<close>. A script of several statements takes
  effect as a whole or not at all.
\<close>

fun runDDL :: "ddl \<Rightarrow> string list \<Rightarrow> err + string list" where
  "runDDL (CreateTable t) cat =
     (if t \<in> set cat then Inl (''relation '' @ t @ '' already exists'') else Inr (cat @ [t]))"
| "runDDL (CreateTableIfNotExists t) cat =
     (if t \<in> set cat then Inr cat else Inr (cat @ [t]))"
| "runDDL (CreateIndexIfNotExists i) cat =
     (if i \<in> set cat then Inr cat else Inr (cat @ [i]))"
| "runDDL (CreateHypertableIfNotExists t) cat =
     (if (''hypertable:'' @ t) \<in> set cat then Inr cat else Inr (cat @ [''hypertable:'' @ t]))"

fun runScript :: "ddl list \<Rightarrow> string list \<Rightarrow> err + string list" where
  "runScript [] cat = Inr cat"
| "runScript (d # ds) cat =
     (case runDDL d cat of
        Inl e \<Rightarrow> Inl e
      | Inr cat' \<Rightarrow> runScript ds cat')"

definition execDDL :: "env \<Rightarrow> ddl list \<Rightarrow> world stmt" where
  "execDDL E script w =
     (let outcome = (case fault E (Exec script) of
                       Some e \<Rightarrow> Inl e
                     | None \<Rightarrow> runScript script (catalog w));
          w' = w\<lparr>clock := time_Add (clock w) (int (latency E (Exec script)))\<rparr>
      in case outcome of
           Inl e \<Rightarrow> (Some e, w'\<lparr>events := events w @ [Called (Exec script) (Some e)]\<rparr>)
         | Inr cat \<Rightarrow>
             (None, w'\<lparr>catalog := cat, events := events w @ [Called (Exec script) None]\<rparr>))"

section \<open>The local variables of a benchmark function\<close>

record frame =
  wld :: world
  results :: BenchmarkResults
  currentChunk :: int
  nRecords :: int
  minTime :: Time
  maxTime :: Time
  middleTime :: Time

text \<open>
  Entering a benchmark function: every local holds its zero value, and the run's list of
  events starts empty. Leaving it: the error, if any, and the world; the locals are gone.
\<close>

definition enter :: "world \<Rightarrow> frame" where
  "enter w =
     \<lparr>wld = w\<lparr>events := []\<rparr>,
      results = \<lparr>DbType = [], Ingestion = [], Queries = []\<rparr>,
      currentChunk = 0, nRecords = 0,
      minTime = zeroTime, maxTime = zeroTime, middleTime = zeroTime\<rparr>"

definition leave :: "err option \<times> frame \<Rightarrow> err option \<times> world" where
  "leave x = (fst x, wld (snd x))"

definition onWorld :: "world stmt \<Rightarrow> frame stmt" where
  "onWorld c f = (case c (wld f) of (r, w') \<Rightarrow> (r, f\<lparr>wld := w'\<rparr>))"

definition assigned :: "string \<Rightarrow> Time \<Rightarrow> frame stmt" where
  "assigned name v f =
     (None, f\<lparr>wld := (wld f)\<lparr>events := events (wld f) @ [Assigned name v]\<rparr>\<rparr>)"

definition appendQuery :: "QueryResult \<Rightarrow> frame \<Rightarrow> frame" where
  "appendQuery q f = f\<lparr>results := (results f)\<lparr>Queries := Queries (results f) @ [q]\<rparr>\<rparr>"

section \<open>The timed query blocks\<close>

text \<open>
  The block every SQL adapter repeats: \<open>start = time.Now()\<close>, the call, \<open>return err\<close> when
  it fails, otherwise one \<open>QueryResult\<close> with \<open>time.Since(start).Milliseconds()\<close>.
\<close>

definition timed :: "int \<Rightarrow> string \<Rightarrow> frame stmt \<Rightarrow> frame stmt" where
  "timed n desc body f =
     (let start = clock (wld f) in
      case body f of
        (Some e, f') \<Rightarrow> (Some e, f')
      | (None, f') \<Rightarrow>
          (None,
           appendQuery
             \<lparr>QueryId = n,
              DurationMs = Milliseconds (time_Since start (clock (wld f'))),
              Description = desc\<rparr> f'))"

text \<open>The block of a query the adapter does not run: one entry with duration \<open>-1\<close>.\<close>

definition sentinel :: "int \<Rightarrow> string \<Rightarrow> frame stmt" where
  "sentinel n desc f =
     (None, appendQuery \<lparr>QueryId = n, DurationMs = - 1, Description = desc\<rparr> f)"

text \<open>
  The block of the InfluxDB adapter: a failed call gives the entry with duration \<open>-1\<close>,
  and the function goes on.
\<close>

definition fluxTimed :: "int \<Rightarrow> string \<Rightarrow> frame stmt \<Rightarrow> frame stmt" where
  "fluxTimed n desc body f =
     (let start = clock (wld f) in
      case body f of
        (Some e, f') \<Rightarrow>
          (None, appendQuery \<lparr>QueryId = n, DurationMs = - 1, Description = desc\<rparr> f')
      | (None, f') \<Rightarrow>
          (None,
           appendQuery
             \<lparr>QueryId = n,
              DurationMs = Milliseconds (time_Since start (clock (wld f'))),
              Description = desc\<rparr> f'))"

definition rowQuery :: "env \<Rightarrow> int \<Rightarrow> Time list \<Rightarrow> frame stmt" where
  "rowQuery E n args = onWorld (extcall E (QueryRow n args))"

definition rowsQuery :: "env \<Rightarrow> int \<Rightarrow> Time list \<Rightarrow> frame stmt" where
  "rowsQuery E n args = onWorld (extcall E (Query n args))"

definition flux :: "env \<Rightarrow> int \<Rightarrow> Time list \<Rightarrow> frame stmt" where
  "flux E n args = onWorld (extcall E (FluxQuery n (map Format_RFC3339 args)))"

text \<open>Query 1 of the SQL adapters: \<open>Scan(&minTime, &maxTime)\<close>.\<close>

definition scanBounds :: "env \<Rightarrow> frame stmt" where
  "scanBounds E f =
     (case rowQuery E 1 [] f of
        (Some e, f') \<Rightarrow> (Some e, f')
      | (None, f') \<Rightarrow> (None, f'\<lparr>minTime := fst (bounds E), maxTime := snd (bounds E)\<rparr>))"

text \<open>\<open>middleTime = minTime.Add(maxTime.Sub(minTime) / 2)\<close>\<close>

definition middleOf :: "Time \<Rightarrow> Time \<Rightarrow> Time" where
  "middleOf minT maxT = time_Add minT (go_div (time_Sub maxT minT) 2)"

definition assignMiddle :: "frame stmt" where
  "assignMiddle f =
     (let m = middleOf (minTime f) (maxTime f)
      in assigned ''middleTime'' m (f\<lparr>middleTime := m\<rparr>))"

text \<open>
  Query 7 computes \<open>hourBefore\<close> and \<open>hourAfter\<close>, query 8 computes \<open>dayAfter\<close>, inside
  their own block, after \<open>start\<close> is taken.
\<close>

definition hourWindow :: "(Time list \<Rightarrow> frame stmt) \<Rightarrow> frame stmt" where
  "hourWindow q f =
     (let hourBefore = time_Add (middleTime f) (- Hour);
          hourAfter = time_Add (middleTime f) Hour
      in seq [assigned ''hourBefore'' hourBefore,
              assigned ''hourAfter'' hourAfter,
              q [hourBefore, hourAfter]] f)"

definition dayWindow :: "(Time list \<Rightarrow> frame stmt) \<Rightarrow> frame stmt" where
  "dayWindow q f =
     (let dayAfter = time_Add (middleTime f) (24 * Hour)
      in seq [assigned ''dayAfter'' dayAfter, q [middleTime f, dayAfter]] f)"

text \<open>
  Query 1 of the InfluxDB adapter: two calls, each \<open>for result.Next()\<close> loop keeping the
  time of the last record; either failure gives the entry with duration \<open>-1\<close>.
\<close>

definition lastRecord :: "Time \<Rightarrow> Time list \<Rightarrow> Time" where
  "lastRecord t records = foldl (\<lambda>cur r. r) t records"

definition fluxBounds :: "env \<Rightarrow> frame stmt" where
  "fluxBounds E f =
     (let start = clock (wld f) in
      case onWorld (extcall E (FluxQuery 1 [])) f of
        (Some e, f1) \<Rightarrow>
          (None,
           appendQuery \<lparr>QueryId = 1, DurationMs = - 1, Description = ''Get time bounds''\<rparr> f1)
      | (None, f1) \<Rightarrow>
          (let f2 = f1\<lparr>minTime := lastRecord (minTime f1) (minRecords E)\<rparr> in
           case onWorld (extcall E FluxQueryMax) f2 of
             (Some e, f3) \<Rightarrow>
               (None,
                appendQuery
                  \<lparr>QueryId = 1, DurationMs = - 1, Description = ''Get time bounds''\<rparr> f3)
           | (None, f3) \<Rightarrow>
               (let f4 = f3\<lparr>maxTime := lastRecord (maxTime f3) (maxRecords E)\<rparr> in
                (None,
                 appendQuery
                   \<lparr>QueryId = 1,
                    DurationMs = Milliseconds (time_Since start (clock (wld f4))),
                    Description = ''Get time bounds''\<rparr> f4))))"

section \<open>The ingestion loop\<close>

text \<open>
  Every benchmark function repeats the same loop around its own way of writing a chunk.
  The writer gets the chunk, \<open>nRecords\<close> before the chunk and the chunk index, and acts
  on the world only. One round gives \<open>Inl err\<close> for \<open>return err\<close> and \<open>Inr hasNext\<close>
  otherwise.
\<close>

type_synonym writer = "ReadingFile \<Rightarrow> int \<Rightarrow> int \<Rightarrow> world stmt"

definition loaded :: "err option \<Rightarrow> frame \<Rightarrow> frame" where
  "loaded r f =
     f\<lparr>wld := (wld f)\<lparr>events := events (wld f) @ [Loaded (currentChunk f) r]\<rparr>\<rparr>"

definition ingestStep :: "env \<Rightarrow> writer \<Rightarrow> frame \<Rightarrow> (err + bool) \<times> frame" where
  "ingestStep E ingest f =
     (case loadDataChunk E (currentChunk f) of
        Inl e \<Rightarrow> (Inl e, loaded (Some e) f)
      | Inr (hasNext, data) \<Rightarrow>
          (let f0 = loaded None f;
               start = clock (wld f0)
           in case ingest data (nRecords f0) (currentChunk f0) (wld f0) of
                (Some e, w') \<Rightarrow> (Inl e, f0\<lparr>wld := w'\<rparr>)
              | (None, w') \<Rightarrow>
                  (let n = nRecords f0 + int (length (Response data));
                       duration = Milliseconds (time_Since start (clock w'))
                   in (Inr hasNext,
                       f0\<lparr>wld := w',
                          results := (results f0)
                            \<lparr>Ingestion := Ingestion (results f0) @
                               [\<lparr>IngestDurationMs = duration, NRecords = n\<rparr>]\<rparr>,
                          nRecords := n,
                          currentChunk := currentChunk f0 + 1\<rparr>))))"

definition dirCount :: "env \<Rightarrow> int" where
  "dirCount E =
     (case fsReadDir E ''../data/readings'' of
        Inl e \<Rightarrow> 0
      | Inr filesInDirectory \<Rightarrow> int (length filesInDirectory))"

function ingestLoop :: "env \<Rightarrow> writer \<Rightarrow> frame stmt" where
  "ingestLoop E ingest f =
     (case ingestStep E ingest f of
        (Inl e, f') \<Rightarrow> (Some e, f')
      | (Inr hasNext, f') \<Rightarrow>
          if \<not> hasNext then (None, f') else ingestLoop E ingest f')"
  by pat_completeness auto
termination
proof (relation "measure (\<lambda>(E, ingest, f). nat (dirCount E - currentChunk f))")
  show "wf (measure (\<lambda>(E, ingest, f). nat (dirCount E - currentChunk f)))" by simp
next
  fix E :: env and ingest :: writer and f :: frame and x :: "err + bool"
    and f' :: frame and hasNext :: bool
  assume "(x, f') = ingestStep E ingest f" "x = Inr hasNext" "\<not> \<not> hasNext"
  then have step: "ingestStep E ingest f = (Inr True, f')" by simp
  then obtain d where "loadDataChunk E (currentChunk f) = Inr (True, d)"
    and next_chunk: "currentChunk f' = currentChunk f + 1"
    by (auto simp: ingestStep_def loaded_def Let_def split: sum.splits prod.splits option.splits)
  then have "currentChunk f + 1 < dirCount E"
    by (auto simp: loadDataChunk_def dirCount_def split: sum.splits if_splits)
  with next_chunk
  show "((E, ingest, f'), (E, ingest, f)) \<in> measure (\<lambda>(E, ingest, f). nat (dirCount E - currentChunk f))"
    by simp
qed

declare ingestLoop.simps [simp del]

text \<open>How each adapter writes one chunk.\<close>

definition copyFromRows :: "env \<Rightarrow> writer" where
  "copyFromRows E data n idx = extcall E (CopyFrom idx (map toRow (Response data)))"

definition lineProtocol :: "env \<Rightarrow> writer" where
  "lineProtocol E data n idx =
     seq (map (\<lambda>reading. extcall E (LineAt idx (toRow reading))) (Response data) @
          [extcall E (LineFlush idx)])"

definition sendBatch :: "env \<Rightarrow> writer" where
  "sendBatch E data n idx = extcall E (SendBatch idx (map toRow (Response data)))"

definition txInsert :: "env \<Rightarrow> writer" where
  "txInsert E data n idx =
     seq ([extcall E (TxBegin idx), extcall E (TxPrepare idx)] @
          map (\<lambda>(i, reading). extcall E (StmtExec idx (n + int i + 1) (toRow reading)))
            (enumerate 0 (Response data)) @
          [extcall E (TxCommit idx)])"

definition writePoints :: "env \<Rightarrow> writer" where
  "writePoints E data n idx =
     extcallUnchecked E (WritePoints idx (map toRow (Response data)))"

section \<open>Writing the result file\<close>

definition writeResults :: "env \<Rightarrow> string \<Rightarrow> string \<Rightarrow> frame stmt" where
  "writeResults E dbType outFile f =
     (let f1 = f\<lparr>results := (results f)\<lparr>DbType := dbType\<rparr>\<rparr> in
      case onWorld (extcall E (Create outFile)) f1 of
        (Some e, f2) \<Rightarrow> (Some e, f2)
      | (None, f2) \<Rightarrow>
          (let f3 = f2\<lparr>wld := (wld f2)\<lparr>files := (files (wld f2))(outFile \<mapsto> Created)\<rparr>\<rparr> in
           case onWorld (extcall E (Encode outFile)) f3 of
             (Some e, f4) \<Rightarrow> (Some e, f4)
           | (None, f4) \<Rightarrow>
               (None,
                f4\<lparr>wld := (wld f4)
                     \<lparr>files := (files (wld f4))(outFile \<mapsto> Encoded (results f4))\<rparr>\<rparr>)))"

section \<open>The six benchmark functions\<close>

text \<open>The description of query 7 holds a plus-minus sign, two bytes in UTF-8.\<close>

definition aroundMiddle :: string where
  "aroundMiddle = ''Records around middle time ('' @ [CHR 0xC2, CHR 0xB1] @ ''1 hour)''"

text \<open>
  The query part of each function, block after block in the order of the source.
  \<open>rowQuery\<close> is a \<open>QueryRow(...).Scan(...)\<close>, \<open>rowsQuery\<close> a \<open>Query(...)\<close>.
\<close>

definition postgresQueries :: "env \<Rightarrow> frame stmt list" where
  "postgresQueries E =
     [timed 1 ''Get time bounds'' (scanBounds E),
      assignMiddle,
      timed 2 ''Count all records'' (rowQuery E 2 []),
      timed 3 ''Count distinct users'' (rowQuery E 3 []),
      timed 4 ''Average RSSI'' (rowQuery E 4 []),
      timed 5 ''Records before middle time'' (\<lambda>f. rowQuery E 5 [middleTime f] f),
      timed 6 ''Records after middle time'' (\<lambda>f. rowQuery E 6 [middleTime f] f),
      timed 7 aroundMiddle (hourWindow (rowQuery E 7)),
      sentinel 8 ''24 hours aggregation from middle time'',
      timed 9 ''Top 10 users by activity'' (rowsQuery E 9 []),
      timed 10 ''Records with strong signal'' (rowQuery E 10 []),
      timed 11 ''Records with weak signal'' (rowQuery E 11 []),
      timed 12 ''Top SSIDs'' (rowsQuery E 12 []),
      timed 13 ''RSSI statistics by user'' (rowsQuery E 13 []),
      sentinel 14 ''RSSI percentiles'',
      timed 15 ''Records in first half'' (\<lambda>f. rowQuery E 15 [minTime f, middleTime f] f),
      timed 16 ''Records in second half'' (\<lambda>f. rowQuery E 16 [middleTime f, maxTime f] f),
      sentinel 17 ''Hourly user activity patterns'',
      sentinel 18 ''Daily RSSI variance'',
      sentinel 19 ''Peak usage hours'',
      sentinel 20 ''User session duration analysis'']"

definition timescaleQueries :: "env \<Rightarrow> frame stmt list" where
  "timescaleQueries E =
     [timed 1 ''Get time bounds'' (scanBounds E),
      assignMiddle,
      timed 2 ''Count all records'' (rowQuery E 2 []),
      timed 3 ''Count distinct users'' (rowQuery E 3 []),
      timed 4 ''Average RSSI'' (rowQuery E 4 []),
      timed 5 ''Records before middle time'' (\<lambda>f. rowQuery E 5 [middleTime f] f),
      timed 6 ''Records after middle time'' (\<lambda>f. rowQuery E 6 [middleTime f] f),
      timed 7 aroundMiddle (hourWindow (rowQuery E 7)),
      timed 8 ''24 hours aggregation from middle time'' (dayWindow (rowsQuery E 8)),
      timed 9 ''Top 10 users by activity'' (rowsQuery E 9 []),
      timed 10 ''Records with strong signal'' (rowQuery E 10 []),
      timed 11 ''Records with weak signal'' (rowQuery E 11 []),
      timed 12 ''Top SSIDs'' (rowsQuery E 12 []),
      timed 13 ''RSSI statistics by user'' (rowsQuery E 13 []),
      timed 14 ''RSSI percentiles'' (rowQuery E 14 []),
      timed 15 ''Records in first half'' (\<lambda>f. rowQuery E 15 [minTime f, middleTime f] f),
      timed 16 ''Records in second half'' (\<lambda>f. rowQuery E 16 [middleTime f, maxTime f] f),
      timed 17 ''Hourly user activity patterns'' (rowsQuery E 17 []),
      timed 18 ''Daily RSSI variance'' (rowsQuery E 18 []),
      timed 19 ''Peak usage hours'' (rowsQuery E 19 []),
      timed 20 ''User session duration analysis'' (rowsQuery E 20 [])]"

text \<open>
  QuestDB gets the middle time alone for queries 7 and 8: the offsets are \<open>dateadd\<close>
  expressions of the SQL text.
\<close>

definition questQueries :: "env \<Rightarrow> frame stmt list" where
  "questQueries E =
     [timed 1 ''Get time bounds'' (scanBounds E),
      assignMiddle,
      timed 2 ''Count all records'' (rowQuery E 2 []),
      timed 3 ''Count distinct users'' (rowQuery E 3 []),
      timed 4 ''Average RSSI'' (rowQuery E 4 []),
      timed 5 ''Records before middle time'' (\<lambda>f. rowQuery E 5 [middleTime f] f),
      timed 6 ''Records after middle time'' (\<lambda>f. rowQuery E 6 [middleTime f] f),
      timed 7 aroundMiddle (\<lambda>f. rowQuery E 7 [middleTime f] f),
      timed 8 ''24 hours aggregation from middle time'' (\<lambda>f. rowsQuery E 8 [middleTime f] f),
      timed 9 ''Top 10 users by activity'' (rowsQuery E 9 []),
      timed 10 ''Records with strong signal'' (rowQuery E 10 []),
      timed 11 ''Records with weak signal'' (rowQuery E 11 []),
      timed 12 ''Top SSIDs'' (rowsQuery E 12 []),
      timed 13 ''RSSI statistics by user'' (rowsQuery E 13 []),
      timed 14 ''RSSI percentiles'' (rowQuery E 14 []),
      timed 15 ''Records in first half'' (\<lambda>f. rowQuery E 15 [minTime f, middleTime f] f),
      timed 16 ''Records in second half'' (\<lambda>f. rowQuery E 16 [middleTime f, maxTime f] f),
      timed 17 ''Hourly user activity patterns'' (rowsQuery E 17 []),
      timed 18 ''Daily RSSI variance'' (rowsQuery E 18 []),
      timed 19 ''Peak usage hours'' (rowsQuery E 19 []),
      timed 20 ''User session duration analysis'' (rowsQuery E 20 [])]"

definition crateQueries :: "env \<Rightarrow> frame stmt list" where
  "crateQueries E =
     [timed 1 ''Get time bounds'' (scanBounds E),
      assignMiddle,
      timed 2 ''Count all records'' (rowQuery E 2 []),
      timed 3 ''Count distinct users'' (rowQuery E 3 []),
      timed 4 ''Average RSSI'' (rowQuery E 4 []),
      timed 5 ''Records before middle time'' (\<lambda>f. rowQuery E 5 [middleTime f] f),
      timed 6 ''Records after middle time'' (\<lambda>f. rowQuery E 6 [middleTime f] f),
      timed 7 aroundMiddle (hourWindow (rowQuery E 7)),
      timed 8 ''24 hours aggregation from middle time'' (dayWindow (rowsQuery E 8)),
      timed 9 ''Top 10 users by activity'' (rowsQuery E 9 []),
      timed 10 ''Records with strong signal'' (rowQuery E 10 []),
      timed 11 ''Records with weak signal'' (rowQuery E 11 []),
      timed 12 ''Top SSIDs'' (rowsQuery E 12 []),
      timed 13 ''RSSI statistics by user'' (rowsQuery E 13 []),
      timed 14 ''RSSI percentiles'' (rowQuery E 14 []),
      timed 15 ''Records in first half'' (\<lambda>f. rowQuery E 15 [minTime f, middleTime f] f),
      timed 16 ''Records in second half'' (\<lambda>f. rowQuery E 16 [middleTime f, maxTime f] f),
      timed 17 ''Hourly user activity patterns'' (rowsQuery E 17 []),
      timed 18 ''Daily RSSI variance'' (rowsQuery E 18 []),
      timed 19 ''Peak usage hours'' (rowsQuery E 19 []),
      timed 20 ''User session duration analysis'' (rowsQuery E 20 [])]"

definition clickHouseQueries :: "env \<Rightarrow> frame stmt list" where
  "clickHouseQueries E =
     [timed 1 ''Get time bounds'' (scanBounds E),
      assignMiddle,
      timed 2 ''Count all records'' (rowQuery E 2 []),
      timed 3 ''Count distinct users'' (rowQuery E 3 []),
      timed 4 ''Average RSSI'' (rowQuery E 4 []),
      timed 5 ''Records before middle time'' (\<lambda>f. rowQuery E 5 [middleTime f] f),
      timed 6 ''Records after middle time'' (\<lambda>f. rowQuery E 6 [middleTime f] f),
      timed 7 aroundMiddle (hourWindow (rowQuery E 7)),
      timed 8 ''24 hours aggregation from middle time'' (dayWindow (rowsQuery E 8)),
      timed 9 ''Top 10 users by activity'' (rowsQuery E 9 []),
      timed 10 ''Records with strong signal'' (rowQuery E 10 []),
      timed 11 ''Records with weak signal'' (rowQuery E 11 []),
      timed 12 ''Top SSIDs'' (rowsQuery E 12 []),
      timed 13 ''RSSI statistics by user'' (rowsQuery E 13 []),
      timed 14 ''RSSI percentiles'' (rowQuery E 14 []),
      timed 15 ''Records in first half'' (\<lambda>f. rowQuery E 15 [minTime f, middleTime f] f),
      timed 16 ''Records in second half'' (\<lambda>f. rowQuery E 16 [middleTime f, maxTime f] f),
      timed 17 ''Hourly user activity patterns'' (rowsQuery E 17 []),
      timed 18 ''Daily RSSI variance'' (rowsQuery E 18 []),
      timed 19 ''Peak usage hours'' (rowsQuery E 19 []),
      timed 20 ''User session duration analysis'' (rowsQuery E 20 [])]"

definition influxQueries :: "env \<Rightarrow> frame stmt list" where
  "influxQueries E =
     [fluxBounds E,
      assignMiddle,
      fluxTimed 2 ''Count all records'' (flux E 2 []),
      fluxTimed 3 ''Count distinct users'' (flux E 3 []),
      fluxTimed 4 ''Average RSSI'' (flux E 4 []),
      fluxTimed 5 ''Records before middle time'' (\<lambda>f. flux E 5 [middleTime f] f),
      fluxTimed 6 ''Records after middle time'' (\<lambda>f. flux E 6 [middleTime f] f),
      fluxTimed 7 aroundMiddle (hourWindow (flux E 7)),
      fluxTimed 8 ''24 hours aggregation from middle time'' (dayWindow (flux E 8)),
      fluxTimed 9 ''Top 10 users by activity'' (flux E 9 []),
      fluxTimed 10 ''Records with strong signal'' (flux E 10 []),
      fluxTimed 11 ''Records with weak signal'' (flux E 11 []),
      fluxTimed 12 ''Top SSIDs'' (flux E 12 []),
      fluxTimed 13 ''RSSI statistics by user'' (flux E 13 []),
      fluxTimed 14 ''RSSI percentiles'' (flux E 14 []),
      fluxTimed 15 ''Records in first half'' (\<lambda>f. flux E 15 [minTime f, middleTime f] f),
      fluxTimed 16 ''Records in second half'' (\<lambda>f. flux E 16 [middleTime f, maxTime f] f),
      fluxTimed 17 ''Hourly user activity patterns'' (flux E 17 []),
      fluxTimed 18 ''Daily RSSI variance'' (flux E 18 []),
      fluxTimed 19 ''Peak usage hours'' (flux E 19 []),
      fluxTimed 20 ''User session duration analysis'' (flux E 20 [])]"

text \<open>
  Each function: connect, create the schema (where the adapter does), ingest, query,
  write the result file.
\<close>

definition benchmarkPostgres :: "env \<Rightarrow> string \<Rightarrow> string \<Rightarrow> world \<Rightarrow> err option \<times> world" where
  "benchmarkPostgres E connStr outFile w =
     leave (seq ([onWorld (extcall E (PoolNew connStr)),
                  onWorld (execDDL E [CreateTable ''user_events'',
                                      CreateIndexIfNotExists ''idx_user_events_timestamp'']),
                  ingestLoop E (copyFromRows E)] @
                 postgresQueries E @
                 [writeResults E ''postgres'' outFile]) (enter w))"

definition benchmarkTimescaleDb :: "env \<Rightarrow> string \<Rightarrow> string \<Rightarrow> world \<Rightarrow> err option \<times> world" where
  "benchmarkTimescaleDb E connStr outFile w =
     leave (seq ([onWorld (extcall E (PoolNew connStr)),
                  onWorld (execDDL E [CreateTable ''user_events'',
                                      CreateHypertableIfNotExists ''user_events'']),
                  ingestLoop E (copyFromRows E)] @
                 timescaleQueries E @
                 [writeResults E ''timescaledb'' outFile]) (enter w))"

definition invalidFormat :: err where
  "invalidFormat =
     ''invalid connection string format, expected '' @ [CHR 0x27] @
     ''ingestUrl:::queryUrl'' @ [CHR 0x27]"

definition benchmarkQuestDb :: "env \<Rightarrow> string \<Rightarrow> string \<Rightarrow> world \<Rightarrow> err option \<times> world" where
  "benchmarkQuestDb E connStr outFile w =
     (let connParts = strings_Split connStr '':::'' in
      if length connParts \<noteq> 2 then leave (Some invalidFormat, enter w)
      else
        (let ingestUrl = connParts ! 0;
             queryUrl = connParts ! 1
         in leave (seq ([onWorld (extcall E (LineSenderFromConf ingestUrl)),
                         onWorld (extcall E (PoolNew queryUrl)),
                         ingestLoop E (lineProtocol E)] @
                        questQueries E @
                        [writeResults E ''questdb'' outFile]) (enter w))))"

text \<open>
  The InfluxDB function makes its client from fixed settings (no call that can fail, and
  \<open>connStr\<close> is not used) and creates no schema.
\<close>

definition benchmarkInfluxDB :: "env \<Rightarrow> string \<Rightarrow> string \<Rightarrow> world \<Rightarrow> err option \<times> world" where
  "benchmarkInfluxDB E connStr outFile w =
     leave (seq ([ingestLoop E (writePoints E)] @
                 influxQueries E @
                 [writeResults E ''influxdb'' outFile]) (enter w))"

definition benchmarkCrateDB :: "env \<Rightarrow> string \<Rightarrow> string \<Rightarrow> world \<Rightarrow> err option \<times> world" where
  "benchmarkCrateDB E connStr outFile w =
     leave (seq ([onWorld (extcall E (PoolNew connStr)),
                  onWorld (execDDL E [CreateTableIfNotExists ''user_events'']),
                  ingestLoop E (sendBatch E)] @
                 crateQueries E @
                 [writeResults E ''cratedb'' outFile]) (enter w))"

definition benchmarkClickHouse :: "env \<Rightarrow> string \<Rightarrow> string \<Rightarrow> world \<Rightarrow> err option \<times> world" where
  "benchmarkClickHouse E connStr outFile w =
     leave (seq ([onWorld (extcall E Ping),
                  onWorld (execDDL E [CreateTableIfNotExists ''user_events'']),
                  ingestLoop E (txInsert E)] @
                 clickHouseQueries E @
                 [writeResults E ''clickhouse'' outFile]) (enter w))"

text \<open>
  \<open>main\<close> after \<open>flag.Parse()\<close>: usage and a plain return when an argument is missing,
  otherwise the function of the database type; a \<open>panic\<close> is the error it carries.
\<close>

definition main :: "env \<Rightarrow> string \<Rightarrow> string \<Rightarrow> string \<Rightarrow> world \<Rightarrow> err option \<times> world" where
  "main E connStr outputFile dbType w =
     (if connStr = [] \<or> dbType = [] \<or> outputFile = [] then (None, w)
      else if dbType = ''postgres'' then benchmarkPostgres E connStr outputFile w
      else if dbType = ''timescaledb'' then benchmarkTimescaleDb E connStr outputFile w
      else if dbType = ''questdb'' then benchmarkQuestDb E connStr outputFile w
      else if dbType = ''cratedb'' then benchmarkCrateDB E connStr outputFile w
      else if dbType = ''clickhouse'' then benchmarkClickHouse E connStr outputFile w
      else if dbType = ''influxdb'' then benchmarkInfluxDB E connStr outputFile w
      else (Some (''Unsupported database type: '' @ dbType), w))"

text \<open>The six functions \<open>main\<close> chooses from, and the five that talk SQL.\<close>

type_synonym benchmark = "env \<Rightarrow> string \<Rightarrow> string \<Rightarrow> world \<Rightarrow> err option \<times> world"

definition benchmarkFunctions :: "benchmark list" where
  "benchmarkFunctions =
     [benchmarkPostgres, benchmarkTimescaleDb, benchmarkQuestDb, benchmarkInfluxDB,
      benchmarkCrateDB, benchmarkClickHouse]"

definition sqlFunctions :: "benchmark list" where
  "sqlFunctions =
     [benchmarkPostgres, benchmarkTimescaleDb, benchmarkQuestDb, benchmarkCrateDB,
      benchmarkClickHouse]"

section \<open>What a run leaves behind\<close>

text \<open>
  The error an event carries, if any. \<open>post c Q\<close>: every execution of the statement \<open>c\<close>
  relates the state before, the error returned and the state after by \<open>Q\<close>.
  \<open>ending S evs r\<close>: of the events \<open>evs\<close> that \<open>S\<close> selects, none but the last one failed,
  and when the last one failed the statement returns with its error.
  \<open>effect A S\<close>: the files are untouched, the events so far are kept, every new event is
  one that \<open>A\<close> allows, and the new events end as \<open>ending S\<close> says.
\<close>

fun failure :: "event \<Rightarrow> err option" where
  "failure (Called c r) = r"
| "failure (Loaded i r) = r"
| "failure (Assigned name v) = None"

definition post :: "'s stmt \<Rightarrow> ('s \<Rightarrow> err option \<Rightarrow> 's \<Rightarrow> bool) \<Rightarrow> bool" where
  "post c Q = (\<forall>s r s'. c s = (r, s') \<longrightarrow> Q s r s')"

definition ending :: "(event \<Rightarrow> bool) \<Rightarrow> event list \<Rightarrow> err option \<Rightarrow> bool" where
  "ending S evs r =
     ((\<forall>ev \<in> set (butlast evs). S ev \<longrightarrow> failure ev = None) \<and>
      (evs \<noteq> [] \<longrightarrow> S (last evs) \<longrightarrow> failure (last evs) \<noteq> None \<longrightarrow> r = failure (last evs)))"

definition effect :: "(event \<Rightarrow> bool) \<Rightarrow> (event \<Rightarrow> bool) \<Rightarrow> world \<Rightarrow> err option \<Rightarrow> world \<Rightarrow> bool" where
  "effect A S w r w' =
     (files w' = files w \<and>
      (\<exists>evs. events w' = events w @ evs \<and> (\<forall>ev \<in> set evs. A ev) \<and> ending S evs r))"

definition onW :: "(world \<Rightarrow> err option \<Rightarrow> world \<Rightarrow> bool) \<Rightarrow> frame \<Rightarrow> err option \<Rightarrow> frame \<Rightarrow> bool" where
  "onW Q f r f' = Q (wld f) r (wld f')"

text \<open>
  The events of ingestion: chunk loads and the writers' calls. \<open>unseen\<close> selects the calls
  of the InfluxDB adapter whose failure does not make the function return. \<open>chunkSize\<close>
  is the number of events of a chunk, \<open>total E k\<close> the number in the chunks before \<open>k\<close>.
  \<open>quiet\<close>: the time bounds and the query results are untouched.
\<close>

fun writeCall :: "call \<Rightarrow> bool" where
  "writeCall (CopyFrom i rows) = True"
| "writeCall (LineAt i r) = True"
| "writeCall (LineFlush i) = True"
| "writeCall (SendBatch i rows) = True"
| "writeCall (TxBegin i) = True"
| "writeCall (TxPrepare i) = True"
| "writeCall (StmtExec i n r) = True"
| "writeCall (TxCommit i) = True"
| "writeCall (WritePoints i rows) = True"
| "writeCall c = False"

fun ingestionEvent :: "event \<Rightarrow> bool" where
  "ingestionEvent (Loaded i r) = True"
| "ingestionEvent (Called c r) = writeCall c"
| "ingestionEvent (Assigned name v) = False"

fun unseen :: "event \<Rightarrow> bool" where
  "unseen (Called (WritePoints i rows) r) = True"
| "unseen (Called (FluxQuery n args) r) = True"
| "unseen (Called FluxQueryMax r) = True"
| "unseen ev = False"

definition chunkSize :: "env \<Rightarrow> nat \<Rightarrow> int" where
  "chunkSize E i =
     (case loadDataChunk E (int i) of
        Inl e \<Rightarrow> 0
      | Inr (hasNext, data) \<Rightarrow> int (length (Response data)))"

definition total :: "env \<Rightarrow> nat \<Rightarrow> int" where
  "total E k = (\<Sum>j < k. chunkSize E j)"

definition returned :: "err + bool \<Rightarrow> err option" where
  "returned x = (case x of Inl e \<Rightarrow> Some e | Inr hasNext \<Rightarrow> None)"

definition quiet :: "frame \<Rightarrow> err option \<Rightarrow> frame \<Rightarrow> bool" where
  "quiet f r f' =
     (minTime f' = minTime f \<and> maxTime f' = maxTime f \<and> middleTime f' = middleTime f \<and>
      Queries (results f') = Queries (results f) \<and> DbType (results f') = DbType (results f))"

text \<open>
  The events of the ingestion loop of a run, and the duration a timed block measures.
\<close>

definition ingestionEvents :: "env \<Rightarrow> writer \<Rightarrow> frame \<Rightarrow> event list" where
  "ingestionEvents E g f =
     drop (length (events (wld f))) (events (wld (snd (ingestLoop E g f))))"

definition elapsed :: "frame stmt \<Rightarrow> frame \<Rightarrow> int" where
  "elapsed body f = Milliseconds (time_Since (clock (wld f)) (clock (wld (snd (body f)))))"

text \<open>
  The events of the query part of a run that completes, for the time bounds \<open>mn\<close> and
  \<open>mx\<close> that query 1 gave: PostgreSQL; TimescaleDB, CrateDB and ClickHouse; QuestDB;
  InfluxDB, whose events carry the outcome of each call.
\<close>

definition sqlHead :: "Time \<Rightarrow> event list" where
  "sqlHead m =
     [Called (QueryRow 1 []) None, Assigned ''middleTime'' m,
      Called (QueryRow 2 []) None, Called (QueryRow 3 []) None, Called (QueryRow 4 []) None,
      Called (QueryRow 5 [m]) None, Called (QueryRow 6 [m]) None]"

definition window7 :: "Time \<Rightarrow> event list" where
  "window7 m =
     [Assigned ''hourBefore'' (time_Add m (- Hour)), Assigned ''hourAfter'' (time_Add m Hour),
      Called (QueryRow 7 [time_Add m (- Hour), time_Add m Hour]) None]"

definition window8 :: "Time \<Rightarrow> event list" where
  "window8 m =
     [Assigned ''dayAfter'' (time_Add m (24 * Hour)),
      Called (Query 8 [m, time_Add m (24 * Hour)]) None]"

definition sqlTail :: "Time \<Rightarrow> Time \<Rightarrow> Time \<Rightarrow> event list" where
  "sqlTail mn mx m =
     [Called (Query 9 []) None, Called (QueryRow 10 []) None, Called (QueryRow 11 []) None,
      Called (Query 12 []) None, Called (Query 13 []) None, Called (QueryRow 14 []) None,
      Called (QueryRow 15 [mn, m]) None, Called (QueryRow 16 [m, mx]) None,
      Called (Query 17 []) None, Called (Query 18 []) None, Called (Query 19 []) None,
      Called (Query 20 []) None]"

definition postgresEvents :: "Time \<Rightarrow> Time \<Rightarrow> event list" where
  "postgresEvents mn mx =
     (let m = middleOf mn mx in
      sqlHead m @ window7 m @
      [Called (Query 9 []) None, Called (QueryRow 10 []) None, Called (QueryRow 11 []) None,
       Called (Query 12 []) None, Called (Query 13 []) None,
       Called (QueryRow 15 [mn, m]) None, Called (QueryRow 16 [m, mx]) None])"

definition sqlEvents :: "Time \<Rightarrow> Time \<Rightarrow> event list" where
  "sqlEvents mn mx =
     (let m = middleOf mn mx in sqlHead m @ window7 m @ window8 m @ sqlTail mn mx m)"

definition questEvents :: "Time \<Rightarrow> Time \<Rightarrow> event list" where
  "questEvents mn mx =
     (let m = middleOf mn mx in
      sqlHead m @ [Called (QueryRow 7 [m]) None, Called (Query 8 [m]) None] @ sqlTail mn mx m)"

definition fluxTimes :: "env \<Rightarrow> Time \<times> Time" where
  "fluxTimes E =
     (if fault E (FluxQuery 1 []) = None
      then (lastRecord zeroTime (minRecords E),
            if fault E FluxQueryMax = None then lastRecord zeroTime (maxRecords E) else zeroTime)
      else (zeroTime, zeroTime))"

definition fluxBoundsEvents :: "env \<Rightarrow> event list" where
  "fluxBoundsEvents E =
     (if fault E (FluxQuery 1 []) = None
      then [Called (FluxQuery 1 []) None, Called FluxQueryMax (fault E FluxQueryMax)]
      else [Called (FluxQuery 1 []) (fault E (FluxQuery 1 []))])"

definition influxEvents :: "env \<Rightarrow> Time \<Rightarrow> Time \<Rightarrow> event list" where
  "influxEvents E mn mx =
     (let m = middleOf mn mx in
      fluxBoundsEvents E @
      [Assigned ''middleTime'' m,
       Called (FluxQuery 2 []) (fault E (FluxQuery 2 [])),
       Called (FluxQuery 3 []) (fault E (FluxQuery 3 [])),
       Called (FluxQuery 4 []) (fault E (FluxQuery 4 [])),
       Called (FluxQuery 5 [Format_RFC3339 m]) (fault E (FluxQuery 5 [Format_RFC3339 m])),
       Called (FluxQuery 6 [Format_RFC3339 m]) (fault E (FluxQuery 6 [Format_RFC3339 m])),
       Assigned ''hourBefore'' (time_Add m (- Hour)),
       Assigned ''hourAfter'' (time_Add m Hour),
       Called (FluxQuery 7 [Format_RFC3339 (time_Add m (- Hour)), Format_RFC3339 (time_Add m Hour)]) (fault E (FluxQuery 7 [Format_RFC3339 (time_Add m (- Hour)), Format_RFC3339 (time_Add m Hour)])),
       Assigned ''dayAfter'' (time_Add m (24 * Hour)),
       Called (FluxQuery 8 [Format_RFC3339 m, Format_RFC3339 (time_Add m (24 * Hour))]) (fault E (FluxQuery 8 [Format_RFC3339 m, Format_RFC3339 (time_Add m (24 * Hour))])),
       Called (FluxQuery 9 []) (fault E (FluxQuery 9 [])),
       Called (FluxQuery 10 []) (fault E (FluxQuery 10 [])),
       Called (FluxQuery 11 []) (fault E (FluxQuery 11 [])),
       Called (FluxQuery 12 []) (fault E (FluxQuery 12 [])),
       Called (FluxQuery 13 []) (fault E (FluxQuery 13 [])),
       Called (FluxQuery 14 []) (fault E (FluxQuery 14 [])),
       Called (FluxQuery 15 [Format_RFC3339 mn, Format_RFC3339 m]) (fault E (FluxQuery 15 [Format_RFC3339 mn, Format_RFC3339 m])),
       Called (FluxQuery 16 [Format_RFC3339 m, Format_RFC3339 mx]) (fault E (FluxQuery 16 [Format_RFC3339 m, Format_RFC3339 mx])),
       Called (FluxQuery 17 []) (fault E (FluxQuery 17 [])),
       Called (FluxQuery 18 []) (fault E (FluxQuery 18 [])),
       Called (FluxQuery 19 []) (fault E (FluxQuery 19 [])),
       Called (FluxQuery 20 []) (fault E (FluxQuery 20 []))])"

definition fluxEntry :: "env \<Rightarrow> QueryResult \<Rightarrow> bool" where
  "fluxEntry E q =
     ((DurationMs q = - 1 \<or> 0 \<le> DurationMs q) \<and>
      (QueryId q = 1 \<longrightarrow>
         (DurationMs q = - 1 \<longleftrightarrow>
            fault E (FluxQuery 1 []) \<noteq> None \<or> fault E FluxQueryMax \<noteq> None)))"

text \<open>
  \<open>prelude\<close>: what the statements before the ingestion loop leave. \<open>answers\<close>: what the
  query part leaves when it returns no error, started with the zero time bounds.
  \<open>completedRun\<close>: what a benchmark function that returns no error leaves.
\<close>

definition fluxDuration :: "err option \<Rightarrow> int \<Rightarrow> int" where
  "fluxDuration r ms = (case r of Some e \<Rightarrow> - 1 | None \<Rightarrow> ms)"

definition fluxBoundsEntry :: "env \<Rightarrow> frame \<Rightarrow> QueryResult" where
  "fluxBoundsEntry E f = last (Queries (results (snd (fluxBounds E f))))"

definition prelude :: "event list \<Rightarrow> frame \<Rightarrow> frame \<Rightarrow> bool" where
  "prelude before f f' =
     (events (wld f') = events (wld f) @ before \<and> files (wld f') = files (wld f) \<and>
      results f' = results f \<and> currentChunk f' = currentChunk f \<and>
      nRecords f' = nRecords f \<and> minTime f' = minTime f \<and> maxTime f' = maxTime f)"

definition answers ::
  "frame stmt list \<Rightarrow> event list \<Rightarrow> (QueryResult \<Rightarrow> bool) \<Rightarrow> bool" where
  "answers qs queried P =
     (\<forall>f f'. seq qs f = (None, f') \<longrightarrow> minTime f = zeroTime \<longrightarrow> maxTime f = zeroTime \<longrightarrow>
        events (wld f') = events (wld f) @ queried \<and>
        files (wld f') = files (wld f) \<and>
        Ingestion (results f') = Ingestion (results f) \<and>
        (\<exists>new. Queries (results f') = Queries (results f) @ new \<and>
               map QueryId new = [1..20] \<and> (\<forall>q \<in> set new. P q)))"

definition completedRun ::
  "env \<Rightarrow> string \<Rightarrow> world \<Rightarrow> event list \<Rightarrow> event list \<Rightarrow> (QueryResult \<Rightarrow> bool) \<Rightarrow> bool" where
  "completedRun E outFile w' before queried P =
     (\<exists>r ing.
        files w' outFile = Some (Encoded r) \<and>
        events w' = before @ ing @ queried @
          [Called (Create outFile) None, Called (Encode outFile) None] \<and>
        (\<forall>ev \<in> set ing. ingestionEvent ev) \<and>
        map QueryId (Queries r) = [1..20] \<and>
        (\<forall>q \<in> set (Queries r). P q) \<and>
        map NRecords (Ingestion r) =
          map (\<lambda>i. total E (Suc i)) [0..<nat (max 1 (dirCount E))])"

definition postgresEntry :: "QueryResult \<Rightarrow> bool" where
  "postgresEntry q =
     (if QueryId q \<in> {8, 14, 17, 18, 19, 20} then DurationMs q = - 1 else 0 \<le> DurationMs q)"

definition measuredEntry :: "QueryResult \<Rightarrow> bool" where
  "measuredEntry q = (0 \<le> DurationMs q)"

text \<open>
  The events of writing the result file. \<open>checked\<close> selects the events whose failure the
  InfluxDB function looks at. \<open>aborts S\<close>: what a benchmark function leaves when an event
  that \<open>S\<close> selects failed: the event is the last one of the run, the function returns
  with its error, and unless it belongs to writing the result file, the files are as
  they were.
\<close>

fun outputEvent :: "event \<Rightarrow> bool" where
  "outputEvent (Called (Create path) r) = True"
| "outputEvent (Called (Encode path) r) = True"
| "outputEvent ev = False"

definition checked :: "event \<Rightarrow> bool" where
  "checked ev = (\<not> unseen ev)"

definition aborts ::
  "(event \<Rightarrow> bool) \<Rightarrow> world \<Rightarrow> err option \<Rightarrow> world \<Rightarrow> bool" where
  "aborts S w r w' =
     (ending S (events w') r \<and>
      (events w' \<noteq> [] \<and> S (last (events w')) \<and> failure (last (events w')) \<noteq> None \<and>
       \<not> outputEvent (last (events w')) \<longrightarrow> files w' = files w))"

section \<open>Chunk directories and example worlds\<close>

text \<open>
  A chunk directory holding exactly the chunks \<open>chunks\<close>: the listing has as many entries
  as there are chunks, and the file of index \<open>i\<close> opens and decodes to the \<open>i\<close>-th chunk.
\<close>

definition chunkPath :: "nat \<Rightarrow> string" where
  "chunkPath i = ''../data/readings/readings_'' @ Itoa (int i) @ ''.json''"

definition chunkFiles :: "env \<Rightarrow> ReadingFile list \<Rightarrow> bool" where
  "chunkFiles E chunks =
     ((case fsReadDir E ''../data/readings'' of
         Inl e \<Rightarrow> False
       | Inr names \<Rightarrow> length names = length chunks) \<and>
      (\<forall>i < length chunks. fsOpen E (chunkPath i) = Inr (Inr (chunks ! i))))"

text \<open>
  An example: two chunks of three and two events, a backend that answers every call in
  two milliseconds without failure, and query 1 returning the bounds 1000 s and 8200 s.
\<close>

definition mkReading :: "string \<Rightarrow> int \<Rightarrow> Reading" where
  "mkReading u t =
     \<lparr>UserId = u, LastUpdatedTime = t, Connection = \<lparr>Ssid = ''AP-101'', Rssi = - 26\<rparr>\<rparr>"

definition chunkA :: ReadingFile where
  "chunkA = \<lparr>Response = [mkReading ''u1'' 1000, mkReading ''u2'' 2000, mkReading ''u3'' 3000]\<rparr>"

definition chunkB :: ReadingFile where
  "chunkB = \<lparr>Response = [mkReading ''u1'' 8000, mkReading ''u2'' 8200]\<rparr>"

definition twoChunks :: "string \<Rightarrow> err + (err + ReadingFile)" where
  "twoChunks path =
     (if path = ''../data/readings/readings_0.json'' then Inr (Inr chunkA)
      else if path = ''../data/readings/readings_1.json'' then Inr (Inr chunkB)
      else Inl ''no such file or directory'')"

definition calmEnv :: env where
  "calmEnv =
     \<lparr>fault = (\<lambda>c. None), latency = (\<lambda>c. 2000000),
      bounds = (time_Unix 1000, time_Unix 8200),
      minRecords = [time_Unix 1000], maxRecords = [time_Unix 8200],
      fsOpen = twoChunks,
      fsReadDir = (\<lambda>path. Inr [''readings_0.json'', ''readings_1.json''])\<rparr>"

definition freshWorld :: world where
  "freshWorld = \<lparr>catalog = [], files = Map.empty, clock = 0, events = []\<rparr>"

text \<open>
  Variations of the example: a backend where one given call fails; an InfluxDB server
  that rejects every write; a dataset whose second chunk file is cut short.
\<close>

definition failing :: "call \<Rightarrow> err \<Rightarrow> env" where
  "failing c e = calmEnv\<lparr>fault := (\<lambda>x. if x = c then Some e else None)\<rparr>"

definition rejectingEnv :: env where
  "rejectingEnv =
     calmEnv\<lparr>fault := (\<lambda>c. case c of
                            WritePoints i rows \<Rightarrow> Some ''unauthorized access''
                          | _ \<Rightarrow> None)\<rparr>"

definition truncatedEnv :: env where
  "truncatedEnv =
     calmEnv\<lparr>fsOpen := (\<lambda>path.
        if path = ''../data/readings/readings_0.json'' then Inr (Inr chunkA)
        else if path = ''../data/readings/readings_1.json''
        then Inr (Inl ''unexpected end of JSON input'')
        else Inl ''no such file or directory'')\<rparr>"

section \<open>Proofs\<close>

subsection \<open>Arithmetic of times and durations\<close>

lemma go_div_nonneg: "0 \<le> a \<Longrightarrow> 0 < b \<Longrightarrow> go_div a b = a div b"
  by (cases "a = 0") (simp_all add: go_div_def)

lemma go_div_ge0: "0 \<le> a \<Longrightarrow> 0 < b \<Longrightarrow> 0 \<le> go_div a b"
  by (simp add: go_div_nonneg pos_imp_zdiv_nonneg_iff)

lemma time_Sub_exact:
  "minDuration \<le> t - u \<Longrightarrow> t - u \<le> maxDuration \<Longrightarrow> time_Sub t u = t - u"
  by (simp add: time_Sub_def Let_def)

lemma time_Sub_ge0: "u \<le> t \<Longrightarrow> 0 \<le> time_Sub t u"
  by (simp add: time_Sub_def Let_def maxDuration_def minDuration_def)

lemma Milliseconds_Since_ge0: "start \<le> c \<Longrightarrow> 0 \<le> Milliseconds (time_Since start c)"
  by (simp add: Milliseconds_def time_Since_def go_div_ge0 time_Sub_ge0)

lemma time_Add_ge: "c \<le> time_Add c (int n)"
  by (simp add: time_Add_def)

lemma middleOf_exact:
  "minDuration \<le> D \<Longrightarrow> D \<le> maxDuration \<Longrightarrow>
     middleOf T0 (time_Add T0 D) = time_Add T0 (go_div D 2)"
  by (simp add: middleOf_def time_Add_def time_Sub_exact)

lemma middleOf_same: "middleOf t t = t"
  by (simp add: middleOf_def time_Sub_def time_Add_def go_div_def maxDuration_def minDuration_def)

subsection \<open>Sequences of statements\<close>

lemma seq_append:
  "seq (as @ bs) s = (case seq as s of (Some e, s') \<Rightarrow> (Some e, s') | (None, s') \<Rightarrow> seq bs s')"
  by (induction as arbitrary: s) (auto split: prod.splits option.splits)

lemma seq_None_Cons:
  "seq (b # bs) s = (None, s') \<longleftrightarrow> fst (b s) = None \<and> seq bs (snd (b s)) = (None, s')"
  by (cases "b s") (auto split: option.splits)

lemma seq_None_Nil: "seq [] s = (None, s') \<longleftrightarrow> s' = s"
  by auto

lemma post_seq:
  assumes each: "\<And>c. c \<in> set cs \<Longrightarrow> post c Q"
    and refl: "\<And>s. Q s None s"
    and trans: "\<And>s s1 r s2. Q s None s1 \<Longrightarrow> Q s1 r s2 \<Longrightarrow> Q s r s2"
  shows "post (seq cs) Q"
  using each
proof (induction cs)
  case Nil
  show ?case by (simp add: post_def refl)
next
  case (Cons c cs)
  have c: "post c Q" and rest: "post (seq cs) Q"
    using Cons by simp_all
  show ?case
    unfolding post_def
  proof (intro allI impI)
    fix s r s'
    assume run: "seq (c # cs) s = (r, s')"
    obtain r1 s1 where first: "c s = (r1, s1)" by (cases "c s")
    with c have q1: "Q s r1 s1" by (simp add: post_def)
    show "Q s r s'"
    proof (cases r1)
      case None
      with run first have "seq cs s1 = (r, s')" by simp
      with rest have "Q s1 r s'" by (simp add: post_def)
      with q1 None trans show ?thesis by blast
    next
      case (Some e)
      with run first q1 show ?thesis by auto
    qed
  qed
qed

lemma ending_Nil: "ending S [] r"
  by (simp add: ending_def)

lemma ending_single: "ending S [ev] r \<longleftrightarrow> (S ev \<longrightarrow> failure ev \<noteq> None \<longrightarrow> r = failure ev)"
  by (simp add: ending_def)

lemma ending_clean:
  assumes "ending S evs None" "ev \<in> set evs" "S ev"
  shows "failure ev = None"
proof -
  from assms(2) have "evs \<noteq> []" by auto
  then have "evs = butlast evs @ [last evs]" by simp
  with assms(2) have "ev \<in> set (butlast evs) \<or> ev = last evs"
    by (metis Un_iff empty_iff insert_iff list.set(1) list.set(2) set_append)
  with assms(1,3) \<open>evs \<noteq> []\<close> show ?thesis
    unfolding ending_def by (metis)
qed

lemma ending_append:
  assumes "ending S evs1 None" "ending S evs2 r"
  shows "ending S (evs1 @ evs2) r"
proof (cases "evs2 = []")
  case True
  with assms(1) show ?thesis
    unfolding ending_def by (metis append_Nil2)
next
  case False
  then have bl: "butlast (evs1 @ evs2) = evs1 @ butlast evs2"
    and la: "last (evs1 @ evs2) = last evs2"
    by (simp_all add: butlast_append)
  from assms(1) have "\<forall>ev \<in> set evs1. S ev \<longrightarrow> failure ev = None"
    by (blast intro: ending_clean)
  with assms(2) False show ?thesis
    unfolding ending_def bl la by auto
qed

lemma ending_failed:
  assumes "ending S evs r" "ev \<in> set evs" "S ev" "failure ev \<noteq> None"
  shows "r = failure ev \<and> ev = last evs \<and> ev \<notin> set (butlast evs)"
proof -
  from assms(2) have ne: "evs \<noteq> []" by auto
  then have "evs = butlast evs @ [last evs]" by simp
  with assms(2) have "ev \<in> set (butlast evs) \<or> ev = last evs"
    by (metis Un_iff empty_iff insert_iff list.set(1) list.set(2) set_append)
  moreover from assms(1,3,4) have notin: "ev \<notin> set (butlast evs)"
    unfolding ending_def by auto
  ultimately have "ev = last evs" by blast
  with assms(1,3,4) ne notin show ?thesis
    unfolding ending_def by blast
qed

lemma ending_forget: "\<forall>ev \<in> set evs. S ev \<longrightarrow> failure ev = None \<Longrightarrow> ending S evs r"
  unfolding ending_def by (auto dest: in_set_butlastD)

lemma effect_refl: "effect A S w None w"
  by (simp add: effect_def ending_Nil)

lemma effect_trans:
  assumes "effect A S w None w1" "effect A S w1 r w2"
  shows "effect A S w r w2"
proof -
  from assms(1) obtain evs1 where 1: "files w1 = files w" "events w1 = events w @ evs1"
    "\<forall>ev \<in> set evs1. A ev" "ending S evs1 None"
    unfolding effect_def by blast
  from assms(2) obtain evs2 where 2: "files w2 = files w1" "events w2 = events w1 @ evs2"
    "\<forall>ev \<in> set evs2. A ev" "ending S evs2 r"
    unfolding effect_def by blast
  from 1 2 have "events w2 = events w @ (evs1 @ evs2)" "\<forall>ev \<in> set (evs1 @ evs2). A ev"
    by auto
  moreover from 1(4) 2(4) have "ending S (evs1 @ evs2) r" by (rule ending_append)
  ultimately show ?thesis
    unfolding effect_def using 1(1) 2(1) by (metis)
qed

lemma post_seq_effect:
  "(\<And>c. c \<in> set cs \<Longrightarrow> post c (effect A S)) \<Longrightarrow> post (seq cs) (effect A S)"
  by (rule post_seq) (auto intro: effect_refl effect_trans)

lemma post_seq_onW:
  "(\<And>c. c \<in> set cs \<Longrightarrow> post c (onW (effect A S))) \<Longrightarrow> post (seq cs) (onW (effect A S))"
  by (rule post_seq) (auto simp: onW_def intro: effect_refl effect_trans)

lemma post_extcall:
  "(\<And>x. A (Called c x)) \<Longrightarrow> post (extcall E c) (effect A S)"
  by (simp add: post_def extcall_def effect_def ending_def)

lemma post_extcallUnchecked:
  "(\<And>x. A (Called c x) \<and> \<not> S (Called c x)) \<Longrightarrow> post (extcallUnchecked E c) (effect A S)"
  by (auto simp: post_def extcallUnchecked_def extcall_def effect_def ending_def)

lemma post_execDDL:
  "(\<And>x. A (Called (Exec script) x)) \<Longrightarrow> post (execDDL E script) (effect A S)"
  by (auto simp: post_def execDDL_def effect_def ending_def Let_def split: sum.splits option.splits)

lemma post_onWorld: "post c Q \<Longrightarrow> post (onWorld c) (onW Q)"
  by (auto simp: post_def onWorld_def onW_def split: prod.splits)

lemma post_assigned: "A (Assigned name v) \<Longrightarrow> post (assigned name v) (onW (effect A S))"
  by (simp add: post_def assigned_def onW_def effect_def ending_def)

lemma post_timed: "post body (onW Q) \<Longrightarrow> post (timed n d body) (onW Q)"
  by (auto simp: post_def timed_def onW_def appendQuery_def Let_def split: prod.splits option.splits)

lemma post_sentinel: "post (sentinel n d) (onW (effect A S))"
  by (simp add: post_def sentinel_def onW_def appendQuery_def effect_def ending_def)

lemma effect_forget:
  "effect (\<lambda>ev. A ev \<and> \<not> S ev) (\<lambda>ev. False) w r w' \<Longrightarrow> effect A S w r' w'"
  unfolding effect_def by (elim conjE exE, intro conjI exI) (auto intro: ending_forget)

lemma post_fluxTimed:
  "post body (onW (effect (\<lambda>ev. A ev \<and> \<not> S ev) (\<lambda>ev. False))) \<Longrightarrow>
     post (fluxTimed n d body) (onW (effect A S))"
  by (auto simp: post_def fluxTimed_def onW_def appendQuery_def Let_def
      split: prod.splits option.splits dest: effect_forget)

lemma post_rowQuery:
  "(\<And>args x. A (Called (QueryRow n args) x)) \<Longrightarrow>
     post (\<lambda>f. rowQuery E n (a f) f) (onW (effect A S))"
  by (simp add: post_def rowQuery_def onWorld_def extcall_def onW_def effect_def ending_def)

lemma post_rowsQuery:
  "(\<And>args x. A (Called (Query n args) x)) \<Longrightarrow>
     post (\<lambda>f. rowsQuery E n (a f) f) (onW (effect A S))"
  by (simp add: post_def rowsQuery_def onWorld_def extcall_def onW_def effect_def ending_def)

lemma post_flux:
  "(\<And>args x. A (Called (FluxQuery n args) x)) \<Longrightarrow>
     post (\<lambda>f. flux E n (a f) f) (onW (effect A S))"
  by (simp add: post_def flux_def onWorld_def extcall_def onW_def effect_def ending_def)

lemma post_scanBounds:
  "(\<And>args x. A (Called (QueryRow 1 args) x)) \<Longrightarrow> post (scanBounds E) (onW (effect A S))"
  by (auto simp: post_def scanBounds_def rowQuery_def onWorld_def extcall_def onW_def effect_def ending_def
      split: option.splits)

lemma post_assignMiddle:
  "(\<And>v. A (Assigned ''middleTime'' v)) \<Longrightarrow> post assignMiddle (onW (effect A S))"
  by (simp add: post_def assignMiddle_def assigned_def onW_def effect_def ending_def Let_def)

lemma post_hourWindow:
  assumes q: "\<And>args. post (q args) (onW (effect A S))" and a: "\<And>name v. A (Assigned name v)"
  shows "post (hourWindow q) (onW (effect A S))"
  unfolding post_def
proof (intro allI impI)
  fix f r f'
  assume run: "hourWindow q f = (r, f')"
  let ?hb = "time_Add (middleTime f) (- Hour)" and ?ha = "time_Add (middleTime f) Hour"
  have "post (seq [assigned ''hourBefore'' ?hb, assigned ''hourAfter'' ?ha, q [?hb, ?ha]])
          (onW (effect A S))"
    by (rule post_seq_onW) (auto intro: q a post_assigned)
  with run show "onW (effect A S) f r f'"
    by (simp add: post_def hourWindow_def Let_def)
qed

lemma post_dayWindow:
  assumes q: "\<And>args. post (q args) (onW (effect A S))" and a: "\<And>name v. A (Assigned name v)"
  shows "post (dayWindow q) (onW (effect A S))"
  unfolding post_def
proof (intro allI impI)
  fix f r f'
  assume run: "dayWindow q f = (r, f')"
  let ?da = "time_Add (middleTime f) (24 * Hour)"
  have "post (seq [assigned ''dayAfter'' ?da, q [middleTime f, ?da]]) (onW (effect A S))"
    by (rule post_seq_onW) (auto intro: q a post_assigned)
  with run show "onW (effect A S) f r f'"
    by (simp add: post_def dayWindow_def Let_def)
qed

lemma post_fluxBounds:
  "(\<And>x. A (Called (FluxQuery 1 []) x) \<and> \<not> S (Called (FluxQuery 1 []) x)) \<Longrightarrow>
   (\<And>x. A (Called FluxQueryMax x) \<and> \<not> S (Called FluxQueryMax x)) \<Longrightarrow>
     post (fluxBounds E) (onW (effect A S))"
  by (auto simp: post_def fluxBounds_def onWorld_def extcall_def onW_def effect_def ending_def
      appendQuery_def Let_def split: option.splits)

lemma post_writeResults_events:
  "writeResults E dbType outFile f = (r, f') \<Longrightarrow>
     \<exists>evs. events (wld f') = events (wld f) @ evs \<and>
           (\<forall>ev \<in> set evs. outputEvent ev) \<and> ending S evs r"
  by (auto simp: writeResults_def onWorld_def extcall_def ending_def Let_def
      split: option.splits)

subsection \<open>The ingestion loop\<close>

lemma ingestLoop_rel:
  "(\<And>f x f'. ingestStep E g f = (x, f') \<Longrightarrow> Q f (returned x) f') \<Longrightarrow>
   (\<And>s s1 r s2. Q s None s1 \<Longrightarrow> Q s1 r s2 \<Longrightarrow> Q s r s2) \<Longrightarrow>
   ingestLoop E g f = (r, f') \<Longrightarrow> Q f r f'"
proof (induction E g f arbitrary: r f' rule: ingestLoop.induct)
  case (1 E g f)
  note step = "1.prems"(1) and trans = "1.prems"(2) and run = "1.prems"(3)
  obtain x f1 where st: "ingestStep E g f = (x, f1)" by (cases "ingestStep E g f")
  from step [OF this] have q1: "Q f (returned x) f1" .
  show ?case
  proof (cases x)
    case (Inl e)
    with run st have "r = Some e" "f' = f1"
      by (simp_all add: ingestLoop.simps [of E g f])
    with q1 Inl show ?thesis by (simp add: returned_def)
  next
    case (Inr hasNext)
    show ?thesis
    proof (cases hasNext)
      case False
      with run st Inr have "r = None" "f' = f1"
        by (simp_all add: ingestLoop.simps [of E g f])
      with q1 Inr show ?thesis by (simp add: returned_def)
    next
      case True
      with run st Inr have "ingestLoop E g f1 = (r, f')"
        by (simp add: ingestLoop.simps [of E g f])
      with "1.IH" [of x f1 hasNext r f'] st Inr True step trans have "Q f1 r f'" by simp
      moreover from q1 Inr have "Q f None f1" by (simp add: returned_def)
      ultimately show ?thesis using trans by blast
    qed
  qed
qed

lemma post_ingestLoop:
  assumes "\<And>f x f'. ingestStep E g f = (x, f') \<Longrightarrow> Q f (returned x) f'"
    and "\<And>s s1 r s2. Q s None s1 \<Longrightarrow> Q s1 r s2 \<Longrightarrow> Q s r s2"
  shows "post (ingestLoop E g) Q"
  unfolding post_def
proof (intro allI impI)
  fix f r f'
  assume "ingestLoop E g f = (r, f')"
  then show "Q f r f'" by (rule ingestLoop_rel [rotated 2]) (fact assms)+
qed

lemma ingestStep_effect:
  assumes g: "\<And>d n i. post (g d n i) (effect A S)" and a: "\<And>i x. A (Loaded i x)"
    and st: "ingestStep E g f = (x, f')"
  shows "onW (effect A S) f (returned x) f'"
proof (cases "loadDataChunk E (currentChunk f)")
  case (Inl e)
  with st a show ?thesis
    by (auto simp: ingestStep_def loaded_def onW_def effect_def ending_def returned_def)
next
  case (Inr p)
  obtain hasNext d where p: "p = (hasNext, d)" by (cases p)
  let ?f0 = "loaded None f"
  obtain r w' where run: "g d (nRecords ?f0) (currentChunk ?f0) (wld ?f0) = (r, w')"
    by (cases "g d (nRecords ?f0) (currentChunk ?f0) (wld ?f0)")
  with g have eff: "effect A S (wld ?f0) r w'" by (simp add: post_def)
  have first: "effect A S (wld f) None (wld ?f0)"
    using a by (simp add: effect_def ending_def loaded_def)
  from effect_trans [OF first eff] have whole: "effect A S (wld f) r w'" .
  show ?thesis
  proof (cases r)
    case None
    with st Inr p run whole show ?thesis
      by (auto simp: ingestStep_def Let_def onW_def returned_def)
  next
    case (Some e)
    with st Inr p run whole show ?thesis
      by (auto simp: ingestStep_def Let_def onW_def returned_def)
  qed
qed

lemma post_ingestLoop_effect:
  assumes "\<And>d n i. post (g d n i) (effect A S)" "\<And>i x. A (Loaded i x)"
  shows "post (ingestLoop E g) (onW (effect A S))"
  by (rule post_ingestLoop)
    (auto simp: onW_def intro: effect_trans dest: ingestStep_effect [OF assms, unfolded onW_def])

lemma ingestStep_quiet: "ingestStep E g f = (x, f') \<Longrightarrow> quiet f r f'"
  by (auto simp: ingestStep_def loaded_def quiet_def Let_def
      split: sum.splits prod.splits option.splits)

lemma post_ingestLoop_quiet: "post (ingestLoop E g) quiet"
  by (rule post_ingestLoop) (auto simp: quiet_def dest: ingestStep_quiet)

lemma ingestStep_sample:
  assumes "ingestStep E g f = (Inr hasNext, f')" "currentChunk f = int k"
  shows "currentChunk f' = int (Suc k) \<and>
         nRecords f' = nRecords f + chunkSize E k \<and>
         map NRecords (Ingestion (results f')) =
           map NRecords (Ingestion (results f)) @ [nRecords f + chunkSize E k] \<and>
         (hasNext \<longleftrightarrow> int (Suc k) < dirCount E)"
  using assms
  by (auto simp: ingestStep_def loaded_def chunkSize_def loadDataChunk_def dirCount_def Let_def
      split: sum.splits prod.splits option.splits if_splits)

lemma ingestLoop_samples:
  "ingestLoop E g f = (None, f') \<Longrightarrow> currentChunk f = int k \<Longrightarrow> nRecords f = total E k \<Longrightarrow>
   map NRecords (Ingestion (results f)) = map (\<lambda>i. total E (Suc i)) [0..<k] \<Longrightarrow>
     \<exists>n. int n = max (int k + 1) (dirCount E) \<and>
         map NRecords (Ingestion (results f')) = map (\<lambda>i. total E (Suc i)) [0..<n]"
proof (induction E g f arbitrary: k rule: ingestLoop.induct)
  case (1 E g f)
  obtain x f1 where st: "ingestStep E g f = (x, f1)" by (cases "ingestStep E g f")
  with "1.prems"(1) obtain hasNext where x: "x = Inr hasNext"
    by (cases x) (simp_all add: ingestLoop.simps [of E g f])
  from ingestStep_sample [OF st [unfolded x] "1.prems"(2)] "1.prems"(3,4)
  have cur: "currentChunk f1 = int (Suc k)"
    and rec: "nRecords f1 = total E (Suc k)"
    and samples: "map NRecords (Ingestion (results f1)) = map (\<lambda>i. total E (Suc i)) [0..<Suc k]"
    and more: "hasNext \<longleftrightarrow> int (Suc k) < dirCount E"
    by (simp_all add: total_def)
  show ?case
  proof (cases hasNext)
    case False
    with "1.prems"(1) st x have "f' = f1" by (simp add: ingestLoop.simps [of E g f])
    moreover from False more have "int (Suc k) = max (int k + 1) (dirCount E)" by simp
    ultimately show ?thesis using samples by blast
  next
    case True
    with "1.prems"(1) st x have "ingestLoop E g f1 = (None, f')"
      by (simp add: ingestLoop.simps [of E g f])
    from "1.IH" [of x f1 hasNext "Suc k", OF _ _ _ this cur rec samples] st x True
    obtain n where "int n = max (int (Suc k) + 1) (dirCount E)"
      and "map NRecords (Ingestion (results f')) = map (\<lambda>i. total E (Suc i)) [0..<n]"
      by auto
    moreover from True more have "max (int (Suc k) + 1) (dirCount E) = max (int k + 1) (dirCount E)"
      by simp
    ultimately show ?thesis by auto
  qed
qed

subsection \<open>The writers\<close>

lemma post_copyFromRows:
  "(\<And>ev. ingestionEvent ev \<Longrightarrow> A ev) \<Longrightarrow> post (copyFromRows E d n i) (effect A S)"
  by (simp add: copyFromRows_def post_extcall)

lemma post_sendBatch:
  "(\<And>ev. ingestionEvent ev \<Longrightarrow> A ev) \<Longrightarrow> post (sendBatch E d n i) (effect A S)"
  by (simp add: sendBatch_def post_extcall)

lemma post_lineProtocol:
  "(\<And>ev. ingestionEvent ev \<Longrightarrow> A ev) \<Longrightarrow> post (lineProtocol E d n i) (effect A S)"
  unfolding lineProtocol_def
  by (rule post_seq_effect) (auto intro!: post_extcall)

lemma post_txInsert:
  "(\<And>ev. ingestionEvent ev \<Longrightarrow> A ev) \<Longrightarrow> post (txInsert E d n i) (effect A S)"
  unfolding txInsert_def
  by (rule post_seq_effect) (auto intro!: post_extcall)

lemma post_writePoints:
  "(\<And>ev. ingestionEvent ev \<Longrightarrow> A ev) \<Longrightarrow> (\<And>ev. unseen ev \<Longrightarrow> \<not> S ev) \<Longrightarrow>
     post (writePoints E d n i) (effect A S)"
  by (simp add: writePoints_def post_extcallUnchecked)

subsection \<open>What each block returns and leaves\<close>

lemma leave_None:
  "leave (c f) = (None, w') \<longleftrightarrow> (\<exists>f'. c f = (None, f') \<and> wld f' = w')"
  by (cases "c f") (auto simp: leave_def)

lemma call_sel:
  "fst (onWorld (extcall E c) f) = fault E c"
  "events (wld (snd (onWorld (extcall E c) f))) = events (wld f) @ [Called c (fault E c)]"
  "files (wld (snd (onWorld (extcall E c) f))) = files (wld f)"
  "results (snd (onWorld (extcall E c) f)) = results f"
  "minTime (snd (onWorld (extcall E c) f)) = minTime f"
  "maxTime (snd (onWorld (extcall E c) f)) = maxTime f"
  "middleTime (snd (onWorld (extcall E c) f)) = middleTime f"
  "currentChunk (snd (onWorld (extcall E c) f)) = currentChunk f"
  "nRecords (snd (onWorld (extcall E c) f)) = nRecords f"
  by (simp_all add: onWorld_def extcall_def)

lemma execDDL_sel:
  "fst (onWorld (execDDL E script) f) = None \<Longrightarrow>
     events (wld (snd (onWorld (execDDL E script) f))) =
       events (wld f) @ [Called (Exec script) None]"
  "files (wld (snd (onWorld (execDDL E script) f))) = files (wld f)"
  "results (snd (onWorld (execDDL E script) f)) = results f"
  "minTime (snd (onWorld (execDDL E script) f)) = minTime f"
  "maxTime (snd (onWorld (execDDL E script) f)) = maxTime f"
  "middleTime (snd (onWorld (execDDL E script) f)) = middleTime f"
  "currentChunk (snd (onWorld (execDDL E script) f)) = currentChunk f"
  "nRecords (snd (onWorld (execDDL E script) f)) = nRecords f"
  by (auto simp: onWorld_def execDDL_def Let_def split: sum.splits option.splits)

lemma assigned_sel:
  "fst (assigned name v f) = None"
  "events (wld (snd (assigned name v f))) = events (wld f) @ [Assigned name v]"
  "files (wld (snd (assigned name v f))) = files (wld f)"
  "results (snd (assigned name v f)) = results f"
  "minTime (snd (assigned name v f)) = minTime f"
  "maxTime (snd (assigned name v f)) = maxTime f"
  "middleTime (snd (assigned name v f)) = middleTime f"
  by (simp_all add: assigned_def)

lemma timed_sel:
  "fst (timed n d body f) = fst (body f)"
  "wld (snd (timed n d body f)) = wld (snd (body f))"
  "minTime (snd (timed n d body f)) = minTime (snd (body f))"
  "maxTime (snd (timed n d body f)) = maxTime (snd (body f))"
  "middleTime (snd (timed n d body f)) = middleTime (snd (body f))"
  "Ingestion (results (snd (timed n d body f))) = Ingestion (results (snd (body f)))"
  "fst (body f) = None \<Longrightarrow>
     Queries (results (snd (timed n d body f))) =
       Queries (results (snd (body f))) @
         [\<lparr>QueryId = n, DurationMs = elapsed body f, Description = d\<rparr>]"
  by (auto simp: timed_def appendQuery_def elapsed_def Let_def split: prod.splits option.splits)

lemma sentinel_sel:
  "fst (sentinel n d f) = None"
  "wld (snd (sentinel n d f)) = wld f"
  "minTime (snd (sentinel n d f)) = minTime f"
  "maxTime (snd (sentinel n d f)) = maxTime f"
  "middleTime (snd (sentinel n d f)) = middleTime f"
  "Ingestion (results (snd (sentinel n d f))) = Ingestion (results f)"
  "Queries (results (snd (sentinel n d f))) =
     Queries (results f) @ [\<lparr>QueryId = n, DurationMs = - 1, Description = d\<rparr>]"
  by (simp_all add: sentinel_def appendQuery_def)

lemma fluxTimed_sel:
  "fst (fluxTimed n d body f) = None"
  "wld (snd (fluxTimed n d body f)) = wld (snd (body f))"
  "minTime (snd (fluxTimed n d body f)) = minTime (snd (body f))"
  "maxTime (snd (fluxTimed n d body f)) = maxTime (snd (body f))"
  "middleTime (snd (fluxTimed n d body f)) = middleTime (snd (body f))"
  "Ingestion (results (snd (fluxTimed n d body f))) = Ingestion (results (snd (body f)))"
  "Queries (results (snd (fluxTimed n d body f))) =
     Queries (results (snd (body f))) @
       [\<lparr>QueryId = n,
         DurationMs = (case fst (body f) of Some e \<Rightarrow> - 1 | None \<Rightarrow> elapsed body f),
         Description = d\<rparr>]"
  by (auto simp: fluxTimed_def appendQuery_def elapsed_def Let_def
      split: prod.splits option.splits)

lemma scanBounds_sel:
  "fst (scanBounds E f) = fault E (QueryRow 1 [])"
  "events (wld (snd (scanBounds E f))) =
     events (wld f) @ [Called (QueryRow 1 []) (fault E (QueryRow 1 []))]"
  "files (wld (snd (scanBounds E f))) = files (wld f)"
  "results (snd (scanBounds E f)) = results f"
  "fault E (QueryRow 1 []) = None \<Longrightarrow> minTime (snd (scanBounds E f)) = fst (bounds E)"
  "fault E (QueryRow 1 []) = None \<Longrightarrow> maxTime (snd (scanBounds E f)) = snd (bounds E)"
  "middleTime (snd (scanBounds E f)) = middleTime f"
  by (auto simp: scanBounds_def rowQuery_def onWorld_def extcall_def split: option.splits)

lemma assignMiddle_sel:
  "fst (assignMiddle f) = None"
  "events (wld (snd (assignMiddle f))) =
     events (wld f) @ [Assigned ''middleTime'' (middleOf (minTime f) (maxTime f))]"
  "files (wld (snd (assignMiddle f))) = files (wld f)"
  "results (snd (assignMiddle f)) = results f"
  "minTime (snd (assignMiddle f)) = minTime f"
  "maxTime (snd (assignMiddle f)) = maxTime f"
  "middleTime (snd (assignMiddle f)) = middleOf (minTime f) (maxTime f)"
  by (simp_all add: assignMiddle_def assigned_def Let_def)

lemma query_sel:
  "fst (rowQuery E n args f) = fault E (QueryRow n args)"
  "events (wld (snd (rowQuery E n args f))) =
     events (wld f) @ [Called (QueryRow n args) (fault E (QueryRow n args))]"
  "files (wld (snd (rowQuery E n args f))) = files (wld f)"
  "results (snd (rowQuery E n args f)) = results f"
  "minTime (snd (rowQuery E n args f)) = minTime f"
  "maxTime (snd (rowQuery E n args f)) = maxTime f"
  "middleTime (snd (rowQuery E n args f)) = middleTime f"
  "fst (rowsQuery E n args f) = fault E (Query n args)"
  "events (wld (snd (rowsQuery E n args f))) =
     events (wld f) @ [Called (Query n args) (fault E (Query n args))]"
  "files (wld (snd (rowsQuery E n args f))) = files (wld f)"
  "results (snd (rowsQuery E n args f)) = results f"
  "minTime (snd (rowsQuery E n args f)) = minTime f"
  "maxTime (snd (rowsQuery E n args f)) = maxTime f"
  "middleTime (snd (rowsQuery E n args f)) = middleTime f"
  "fst (flux E n args f) = fault E (FluxQuery n (map Format_RFC3339 args))"
  "events (wld (snd (flux E n args f))) =
     events (wld f) @
       [Called (FluxQuery n (map Format_RFC3339 args))
          (fault E (FluxQuery n (map Format_RFC3339 args)))]"
  "files (wld (snd (flux E n args f))) = files (wld f)"
  "results (snd (flux E n args f)) = results f"
  "minTime (snd (flux E n args f)) = minTime f"
  "maxTime (snd (flux E n args f)) = maxTime f"
  "middleTime (snd (flux E n args f)) = middleTime f"
  by (simp_all add: rowQuery_def rowsQuery_def flux_def call_sel)

lemma window_eq:
  "hourWindow q f =
     q [time_Add (middleTime f) (- Hour), time_Add (middleTime f) Hour]
       (snd (assigned ''hourAfter'' (time_Add (middleTime f) Hour)
         (snd (assigned ''hourBefore'' (time_Add (middleTime f) (- Hour)) f))))"
  "dayWindow q f =
     q [middleTime f, time_Add (middleTime f) (24 * Hour)]
       (snd (assigned ''dayAfter'' (time_Add (middleTime f) (24 * Hour)) f))"
  by (cases "q [time_Add (middleTime f) (- Hour), time_Add (middleTime f) Hour]
       (snd (assigned ''hourAfter'' (time_Add (middleTime f) Hour)
         (snd (assigned ''hourBefore'' (time_Add (middleTime f) (- Hour)) f))))",
      auto simp: hourWindow_def assigned_def Let_def split: option.splits,
      cases "q [middleTime f, time_Add (middleTime f) (24 * Hour)]
       (snd (assigned ''dayAfter'' (time_Add (middleTime f) (24 * Hour)) f))",
      auto simp: dayWindow_def assigned_def Let_def split: option.splits)

lemma hourWindow_sel:
  "fst (hourWindow (rowQuery E n) f) =
     fault E (QueryRow n [time_Add (middleTime f) (- Hour), time_Add (middleTime f) Hour])"
  "events (wld (snd (hourWindow (rowQuery E n) f))) =
     events (wld f) @
       [Assigned ''hourBefore'' (time_Add (middleTime f) (- Hour)),
        Assigned ''hourAfter'' (time_Add (middleTime f) Hour),
        Called (QueryRow n [time_Add (middleTime f) (- Hour), time_Add (middleTime f) Hour])
          (fault E (QueryRow n
             [time_Add (middleTime f) (- Hour), time_Add (middleTime f) Hour]))]"
  "fst (hourWindow (flux E n) f) =
     fault E (FluxQuery n [Format_RFC3339 (time_Add (middleTime f) (- Hour)),
                            Format_RFC3339 (time_Add (middleTime f) Hour)])"
  "events (wld (snd (hourWindow (flux E n) f))) =
     events (wld f) @
       [Assigned ''hourBefore'' (time_Add (middleTime f) (- Hour)),
        Assigned ''hourAfter'' (time_Add (middleTime f) Hour),
        Called (FluxQuery n [Format_RFC3339 (time_Add (middleTime f) (- Hour)),
                             Format_RFC3339 (time_Add (middleTime f) Hour)])
          (fault E (FluxQuery n [Format_RFC3339 (time_Add (middleTime f) (- Hour)),
                                 Format_RFC3339 (time_Add (middleTime f) Hour)]))]"
  "files (wld (snd (hourWindow (rowQuery E n) f))) = files (wld f)"
  "files (wld (snd (hourWindow (flux E n) f))) = files (wld f)"
  "results (snd (hourWindow (rowQuery E n) f)) = results f"
  "results (snd (hourWindow (flux E n) f)) = results f"
  "minTime (snd (hourWindow (rowQuery E n) f)) = minTime f"
  "minTime (snd (hourWindow (flux E n) f)) = minTime f"
  "maxTime (snd (hourWindow (rowQuery E n) f)) = maxTime f"
  "maxTime (snd (hourWindow (flux E n) f)) = maxTime f"
  "middleTime (snd (hourWindow (rowQuery E n) f)) = middleTime f"
  "middleTime (snd (hourWindow (flux E n) f)) = middleTime f"
  by (simp_all add: window_eq query_sel assigned_sel)

lemma dayWindow_sel:
  "fst (dayWindow (rowsQuery E n) f) =
     fault E (Query n [middleTime f, time_Add (middleTime f) (24 * Hour)])"
  "events (wld (snd (dayWindow (rowsQuery E n) f))) =
     events (wld f) @
       [Assigned ''dayAfter'' (time_Add (middleTime f) (24 * Hour)),
        Called (Query n [middleTime f, time_Add (middleTime f) (24 * Hour)])
          (fault E (Query n [middleTime f, time_Add (middleTime f) (24 * Hour)]))]"
  "fst (dayWindow (flux E n) f) =
     fault E (FluxQuery n [Format_RFC3339 (middleTime f),
                            Format_RFC3339 (time_Add (middleTime f) (24 * Hour))])"
  "events (wld (snd (dayWindow (flux E n) f))) =
     events (wld f) @
       [Assigned ''dayAfter'' (time_Add (middleTime f) (24 * Hour)),
        Called (FluxQuery n [Format_RFC3339 (middleTime f),
                             Format_RFC3339 (time_Add (middleTime f) (24 * Hour))])
          (fault E (FluxQuery n [Format_RFC3339 (middleTime f),
                                 Format_RFC3339 (time_Add (middleTime f) (24 * Hour))]))]"
  "files (wld (snd (dayWindow (rowsQuery E n) f))) = files (wld f)"
  "files (wld (snd (dayWindow (flux E n) f))) = files (wld f)"
  "results (snd (dayWindow (rowsQuery E n) f)) = results f"
  "results (snd (dayWindow (flux E n) f)) = results f"
  "minTime (snd (dayWindow (rowsQuery E n) f)) = minTime f"
  "minTime (snd (dayWindow (flux E n) f)) = minTime f"
  "maxTime (snd (dayWindow (rowsQuery E n) f)) = maxTime f"
  "maxTime (snd (dayWindow (flux E n) f)) = maxTime f"
  "middleTime (snd (dayWindow (rowsQuery E n) f)) = middleTime f"
  "middleTime (snd (dayWindow (flux E n) f)) = middleTime f"
  by (simp_all add: window_eq query_sel assigned_sel)

lemma writeResults_sel:
  "fst (writeResults E dbType outFile f) = None \<longleftrightarrow>
     fault E (Create outFile) = None \<and> fault E (Encode outFile) = None"
  "fault E (Create outFile) = None \<Longrightarrow> fault E (Encode outFile) = None \<Longrightarrow>
     events (wld (snd (writeResults E dbType outFile f))) =
       events (wld f) @ [Called (Create outFile) None, Called (Encode outFile) None]"
  "fault E (Create outFile) = None \<Longrightarrow> fault E (Encode outFile) = None \<Longrightarrow>
     files (wld (snd (writeResults E dbType outFile f))) =
       (files (wld f))(outFile \<mapsto> Encoded ((results f)\<lparr>DbType := dbType\<rparr>))"
  by (auto simp: writeResults_def onWorld_def extcall_def Let_def split: option.splits)

lemma ingestLoop_sel:
  "minTime (snd (ingestLoop E g f)) = minTime f"
  "maxTime (snd (ingestLoop E g f)) = maxTime f"
  "middleTime (snd (ingestLoop E g f)) = middleTime f"
  "Queries (results (snd (ingestLoop E g f))) = Queries (results f)"
  using post_ingestLoop_quiet [of E g]
  by (cases "ingestLoop E g f", simp add: post_def quiet_def)+

lemma ingestLoop_world:
  assumes "\<And>d n i. post (g d n i) (effect ingestionEvent S)"
  shows "files (wld (snd (ingestLoop E g f))) = files (wld f)"
    and "events (wld (snd (ingestLoop E g f))) = events (wld f) @ ingestionEvents E g f"
    and "ev \<in> set (ingestionEvents E g f) \<Longrightarrow> ingestionEvent ev"
proof -
  obtain r f' where run: "ingestLoop E g f = (r, f')" by (cases "ingestLoop E g f")
  have "post (ingestLoop E g) (onW (effect ingestionEvent S))"
    by (rule post_ingestLoop_effect) (simp_all add: assms)
  with run have eff: "effect ingestionEvent S (wld f) r (wld f')"
    by (simp add: post_def onW_def)
  then obtain evs where evs: "events (wld f') = events (wld f) @ evs"
    and kinds: "\<forall>ev \<in> set evs. ingestionEvent ev"
    by (auto simp: effect_def ending_def)
  from eff run show "files (wld (snd (ingestLoop E g f))) = files (wld f)"
    by (simp add: effect_def ending_def)
  from evs run have eq: "ingestionEvents E g f = evs"
    by (simp add: ingestionEvents_def)
  with evs run show "events (wld (snd (ingestLoop E g f))) = events (wld f) @ ingestionEvents E g f"
    by simp
  from eq kinds show "ev \<in> set (ingestionEvents E g f) \<Longrightarrow> ingestionEvent ev" by simp
qed

lemmas copyFromRows_world = ingestLoop_world [of "copyFromRows E" "\<lambda>ev. True" for E, OF post_copyFromRows]
lemmas lineProtocol_world = ingestLoop_world [of "lineProtocol E" "\<lambda>ev. True" for E, OF post_lineProtocol]
lemmas sendBatch_world = ingestLoop_world [of "sendBatch E" "\<lambda>ev. True" for E, OF post_sendBatch]
lemmas txInsert_world = ingestLoop_world [of "txInsert E" "\<lambda>ev. True" for E, OF post_txInsert]
lemmas writePoints_world = ingestLoop_world [of "writePoints E" "\<lambda>ev. False" for E, OF post_writePoints]

lemma elapsed_ge0:
  "0 \<le> elapsed (\<lambda>f. rowQuery E n (a f) f) f"
  "0 \<le> elapsed (\<lambda>f. rowsQuery E n (a f) f) f"
  "0 \<le> elapsed (\<lambda>f. flux E n (a f) f) f"
  "0 \<le> elapsed (scanBounds E) f"
  "0 \<le> elapsed (hourWindow (rowQuery E n)) f"
  "0 \<le> elapsed (hourWindow (flux E n)) f"
  "0 \<le> elapsed (dayWindow (rowsQuery E n)) f"
  "0 \<le> elapsed (dayWindow (flux E n)) f"
  by (auto simp: elapsed_def window_eq scanBounds_def assigned_def onWorld_def extcall_def
      rowQuery_def rowsQuery_def flux_def Milliseconds_Since_ge0 time_Add_def
      split: option.splits)

lemmas sels = call_sel execDDL_sel assigned_sel timed_sel sentinel_sel fluxTimed_sel
  scanBounds_sel assignMiddle_sel query_sel hourWindow_sel dayWindow_sel writeResults_sel
  ingestLoop_sel

lemmas run_simps = leave_None seq_None_Cons seq_None_Nil enter_def sels


subsection \<open>Runs that complete\<close>

lemma ingestLoop_samples_sel:
  assumes "fst (ingestLoop E g f) = None" "currentChunk f = 0" "nRecords f = 0"
    "Ingestion (results f) = []"
  shows "map NRecords (Ingestion (results (snd (ingestLoop E g f)))) =
           map (\<lambda>i. total E (Suc i)) [0..<nat (max 1 (dirCount E))]"
proof -
  from assms(1) have run: "ingestLoop E g f = (None, snd (ingestLoop E g f))"
    by (cases "ingestLoop E g f") simp
  from ingestLoop_samples [OF run, of 0] assms(2-4)
  obtain n where "int n = max 1 (dirCount E)"
    and "map NRecords (Ingestion (results (snd (ingestLoop E g f)))) =
           map (\<lambda>i. total E (Suc i)) [0..<n]"
    by (auto simp: total_def)
  then show ?thesis by (metis nat_int)
qed

lemmas phase_simps = seq_None_Cons seq_None_Nil sels elapsed_ge0 upto_rec1

lemmas event_lists = sqlHead_def window7_def window8_def sqlTail_def postgresEvents_def
  sqlEvents_def questEvents_def

lemma postgres_answers:
  "answers (postgresQueries E) (postgresEvents (fst (bounds E)) (snd (bounds E))) postgresEntry"
  unfolding answers_def
  by (clarsimp simp: postgresQueries_def phase_simps event_lists postgresEntry_def Let_def
      simp del: seq.simps cong: conj_cong)

lemma timescale_answers:
  "answers (timescaleQueries E) (sqlEvents (fst (bounds E)) (snd (bounds E))) measuredEntry"
  unfolding answers_def
  by (clarsimp simp: timescaleQueries_def phase_simps event_lists measuredEntry_def Let_def
      simp del: seq.simps cong: conj_cong)

lemma quest_answers:
  "answers (questQueries E) (questEvents (fst (bounds E)) (snd (bounds E))) measuredEntry"
  unfolding answers_def
  by (clarsimp simp: questQueries_def phase_simps event_lists measuredEntry_def Let_def
      simp del: seq.simps cong: conj_cong)

lemma crate_answers:
  "answers (crateQueries E) (sqlEvents (fst (bounds E)) (snd (bounds E))) measuredEntry"
  using timescale_answers [of E] by (simp add: crateQueries_def timescaleQueries_def)

lemma clickHouse_answers:
  "answers (clickHouseQueries E) (sqlEvents (fst (bounds E)) (snd (bounds E))) measuredEntry"
  using timescale_answers [of E] by (simp add: clickHouseQueries_def timescaleQueries_def)

lemma fluxBounds_sel:
  "fst (fluxBounds E f) = None"
  "events (wld (snd (fluxBounds E f))) = events (wld f) @ fluxBoundsEvents E"
  "files (wld (snd (fluxBounds E f))) = files (wld f)"
  "Ingestion (results (snd (fluxBounds E f))) = Ingestion (results f)"
  "minTime f = zeroTime \<Longrightarrow> minTime (snd (fluxBounds E f)) = fst (fluxTimes E)"
  "maxTime f = zeroTime \<Longrightarrow> maxTime (snd (fluxBounds E f)) = snd (fluxTimes E)"
  "middleTime (snd (fluxBounds E f)) = middleTime f"
  "Queries (results (snd (fluxBounds E f))) = Queries (results f) @ [fluxBoundsEntry E f]"
  by (auto simp: fluxBounds_def fluxBoundsEvents_def fluxTimes_def fluxBoundsEntry_def onWorld_def
      extcall_def appendQuery_def Let_def split: option.splits)

lemma fluxBoundsEntry:
  "QueryId (fluxBoundsEntry E f) = 1" "fluxEntry E (fluxBoundsEntry E f)"
proof -
  have "0 \<le> Milliseconds (time_Since (clock (wld f))
           (time_Add (time_Add (clock (wld f)) (int a)) (int b)))" for a b
    by (rule Milliseconds_Since_ge0) (simp add: time_Add_def)
  then have "Milliseconds (time_Since (clock (wld f))
           (time_Add (time_Add (clock (wld f)) (int a)) (int b))) \<noteq> - 1" for a b
    by (metis neg_0_le_iff_le not_one_le_zero)
  then show "QueryId (fluxBoundsEntry E f) = 1" "fluxEntry E (fluxBoundsEntry E f)"
    using \<open>\<And>a b. 0 \<le> Milliseconds (time_Since (clock (wld f))
           (time_Add (time_Add (clock (wld f)) (int a)) (int b)))\<close>
    by (auto simp: fluxBounds_def fluxBoundsEntry_def fluxEntry_def onWorld_def
        extcall_def appendQuery_def Let_def split: option.splits)
qed

lemma fluxTimed_entry:
  "Queries (results (snd (fluxTimed n d body f))) =
     Queries (results (snd (body f))) @
       [\<lparr>QueryId = n, DurationMs = fluxDuration (fst (body f)) (elapsed body f),
         Description = d\<rparr>]"
  by (simp add: fluxTimed_sel fluxDuration_def)

lemma fluxDuration_entry:
  "0 \<le> ms \<Longrightarrow> n \<noteq> 1 \<Longrightarrow>
     fluxEntry E \<lparr>QueryId = n, DurationMs = fluxDuration r ms, Description = d\<rparr>"
  by (cases r) (simp_all add: fluxEntry_def fluxDuration_def)

lemma influx_answers:
  "answers (influxQueries E) (influxEvents E (fst (fluxTimes E)) (snd (fluxTimes E)))
     (fluxEntry E)"
  unfolding answers_def
  by (clarsimp simp: influxQueries_def seq_None_Cons seq_None_Nil call_sel assigned_sel
      fluxTimed_sel(1-6) fluxTimed_entry fluxDuration_entry fluxBounds_sel fluxBoundsEntry
      assignMiddle_sel query_sel hourWindow_sel dayWindow_sel elapsed_ge0 upto_rec1
      influxEvents_def Let_def
      simp del: seq.simps cong: conj_cong)

lemma run_completed:
  assumes run: "leave (seq (pre @ [ingestLoop E g] @ queries @ [writeResults E ty outFile])
                  (enter w)) = (None, w')"
    and pre: "\<And>f f'. seq pre f = (None, f') \<Longrightarrow> prelude before f f'"
    and g: "\<And>d n i. post (g d n i) (effect ingestionEvent S)"
    and queries: "answers queries queried P"
  shows "completedRun E outFile w' before queried P"
proof -
  from run obtain f4 where
    all: "seq (pre @ [ingestLoop E g] @ queries @ [writeResults E ty outFile]) (enter w) = (None, f4)"
    and w': "w' = wld f4"
    by (auto simp: leave_None)
  from all obtain f1 where p: "seq pre (enter w) = (None, f1)"
    and rest1: "seq ([ingestLoop E g] @ queries @ [writeResults E ty outFile]) f1 = (None, f4)"
    by (auto simp: seq_append split: prod.splits option.splits)
  from rest1 obtain f2 where i: "ingestLoop E g f1 = (None, f2)"
    and rest2: "seq (queries @ [writeResults E ty outFile]) f2 = (None, f4)"
    by (auto split: prod.splits option.splits)
  from rest2 obtain f3 where q: "seq queries f2 = (None, f3)"
    and wr: "writeResults E ty outFile f3 = (None, f4)"
    by (auto simp: seq_append split: prod.splits option.splits)
  from pre [OF p] have f1: "events (wld f1) = before" "files (wld f1) = files w"
    "Ingestion (results f1) = []" "Queries (results f1) = []" "currentChunk f1 = 0"
    "nRecords f1 = 0" "minTime f1 = zeroTime" "maxTime f1 = zeroTime"
    by (simp_all add: enter_def prelude_def)
  from i have i': "fst (ingestLoop E g f1) = None" and f2: "f2 = snd (ingestLoop E g f1)"
    by simp_all
  note loop = ingestLoop_world [where g = g and S = S and E = E and f = f1, OF g]
  have ev2: "events (wld f2) = before @ ingestionEvents E g f1"
    and files2: "files (wld f2) = files w"
    and q2: "Queries (results f2) = []"
    and times2: "minTime f2 = zeroTime" "maxTime f2 = zeroTime"
    and samples: "map NRecords (Ingestion (results f2)) =
        map (\<lambda>i. total E (Suc i)) [0..<nat (max 1 (dirCount E))]"
    using f1 by (simp_all add: f2 loop(1,2) ingestLoop_sel ingestLoop_samples_sel [OF i'])
  from queries q times2 obtain new where
    ev3: "events (wld f3) = events (wld f2) @ queried"
    and files3: "files (wld f3) = files (wld f2)"
    and ing3: "Ingestion (results f3) = Ingestion (results f2)"
    and q3: "Queries (results f3) = Queries (results f2) @ new"
    and ids: "map QueryId new = [1..20]" and entries: "\<forall>q \<in> set new. P q"
    unfolding answers_def by blast
  from wr have ok: "fault E (Create outFile) = None" "fault E (Encode outFile) = None"
    and f4: "f4 = snd (writeResults E ty outFile f3)"
    using writeResults_sel(1) [of E ty outFile f3] by simp_all
  let ?r = "(results f3)\<lparr>DbType := ty\<rparr>"
  have "files w' outFile = Some (Encoded ?r)"
    using w' by (simp add: f4 writeResults_sel(3) [OF ok])
  moreover have "events w' = before @ ingestionEvents E g f1 @ queried @
      [Called (Create outFile) None, Called (Encode outFile) None]"
    using w' by (simp add: f4 writeResults_sel(2) [OF ok] ev3 ev2)
  moreover have "\<forall>ev \<in> set (ingestionEvents E g f1). ingestionEvent ev"
    using loop(3) by blast
  moreover have "map QueryId (Queries ?r) = [1..20]" "\<forall>q \<in> set (Queries ?r). P q"
    using ids entries by (simp_all add: q3 q2)
  moreover have "map NRecords (Ingestion ?r) =
      map (\<lambda>i. total E (Suc i)) [0..<nat (max 1 (dirCount E))]"
    using samples by (simp add: ing3)
  ultimately show ?thesis unfolding completedRun_def by blast
qed

lemma connect_ddl:
  "seq [onWorld (extcall E c), onWorld (execDDL E script)] f = (None, f') \<Longrightarrow>
     prelude [Called c None, Called (Exec script) None] f f'"
  unfolding prelude_def
  by (clarsimp simp: seq_None_Cons seq_None_Nil call_sel execDDL_sel simp del: seq.simps
      cong: conj_cong)

lemma connect_twice:
  "seq [onWorld (extcall E c), onWorld (extcall E c')] f = (None, f') \<Longrightarrow>
     prelude [Called c None, Called c' None] f f'"
  unfolding prelude_def
  by (clarsimp simp: seq_None_Cons seq_None_Nil call_sel simp del: seq.simps cong: conj_cong)

lemma no_connect: "seq [] f = (None, f') \<Longrightarrow> prelude [] f f'"
  by (simp add: prelude_def)

lemma postgres_completed:
  assumes "benchmarkPostgres E connStr outFile w = (None, w')"
  shows "completedRun E outFile w'
           [Called (PoolNew connStr) None,
            Called (Exec [CreateTable ''user_events'',
                          CreateIndexIfNotExists ''idx_user_events_timestamp'']) None]
           (postgresEvents (fst (bounds E)) (snd (bounds E))) postgresEntry"
proof -
  from assms
  have "leave (seq ([onWorld (extcall E (PoolNew connStr)),
                  onWorld (execDDL E [CreateTable ''user_events'',
                                      CreateIndexIfNotExists ''idx_user_events_timestamp''])] @
                 [ingestLoop E (copyFromRows E)] @ postgresQueries E @
                 [writeResults E ''postgres'' outFile]) (enter w)) = (None, w')"
    by (simp add: benchmarkPostgres_def del: seq.simps)
  from run_completed [OF this connect_ddl post_copyFromRows postgres_answers]
  show ?thesis by simp
qed

lemma timescale_completed:
  assumes "benchmarkTimescaleDb E connStr outFile w = (None, w')"
  shows "completedRun E outFile w'
           [Called (PoolNew connStr) None,
            Called (Exec [CreateTable ''user_events'',
                          CreateHypertableIfNotExists ''user_events'']) None]
           (sqlEvents (fst (bounds E)) (snd (bounds E))) measuredEntry"
proof -
  from assms
  have "leave (seq ([onWorld (extcall E (PoolNew connStr)),
                  onWorld (execDDL E [CreateTable ''user_events'',
                                      CreateHypertableIfNotExists ''user_events''])] @
                 [ingestLoop E (copyFromRows E)] @ timescaleQueries E @
                 [writeResults E ''timescaledb'' outFile]) (enter w)) = (None, w')"
    by (simp add: benchmarkTimescaleDb_def del: seq.simps)
  from run_completed [OF this connect_ddl post_copyFromRows timescale_answers]
  show ?thesis by simp
qed

lemma crate_completed:
  assumes "benchmarkCrateDB E connStr outFile w = (None, w')"
  shows "completedRun E outFile w'
           [Called (PoolNew connStr) None,
            Called (Exec [CreateTableIfNotExists ''user_events'']) None]
           (sqlEvents (fst (bounds E)) (snd (bounds E))) measuredEntry"
proof -
  from assms
  have "leave (seq ([onWorld (extcall E (PoolNew connStr)),
                  onWorld (execDDL E [CreateTableIfNotExists ''user_events''])] @
                 [ingestLoop E (sendBatch E)] @ crateQueries E @
                 [writeResults E ''cratedb'' outFile]) (enter w)) = (None, w')"
    by (simp add: benchmarkCrateDB_def del: seq.simps)
  from run_completed [OF this connect_ddl post_sendBatch crate_answers]
  show ?thesis by simp
qed

lemma clickHouse_completed:
  assumes "benchmarkClickHouse E connStr outFile w = (None, w')"
  shows "completedRun E outFile w'
           [Called Ping None, Called (Exec [CreateTableIfNotExists ''user_events'']) None]
           (sqlEvents (fst (bounds E)) (snd (bounds E))) measuredEntry"
proof -
  from assms
  have "leave (seq ([onWorld (extcall E Ping),
                  onWorld (execDDL E [CreateTableIfNotExists ''user_events''])] @
                 [ingestLoop E (txInsert E)] @ clickHouseQueries E @
                 [writeResults E ''clickhouse'' outFile]) (enter w)) = (None, w')"
    by (simp add: benchmarkClickHouse_def del: seq.simps)
  from run_completed [OF this connect_ddl post_txInsert clickHouse_answers]
  show ?thesis by simp
qed

lemma quest_completed:
  assumes "benchmarkQuestDb E connStr outFile w = (None, w')"
  shows "\<exists>ingestUrl queryUrl.
           strings_Split connStr '':::'' = [ingestUrl, queryUrl] \<and>
           completedRun E outFile w'
             [Called (LineSenderFromConf ingestUrl) None, Called (PoolNew queryUrl) None]
             (questEvents (fst (bounds E)) (snd (bounds E))) measuredEntry"
proof -
  let ?parts = "strings_Split connStr '':::''"
  have two: "length ?parts = 2"
    using assms by (auto simp: benchmarkQuestDb_def Let_def leave_def split: if_splits)
  then obtain a b where parts: "?parts = [a, b]"
    by (cases ?parts; cases "tl ?parts"; cases "tl (tl ?parts)") auto
  from assms two parts
  have "leave (seq ([onWorld (extcall E (LineSenderFromConf a)), onWorld (extcall E (PoolNew b))] @
                 [ingestLoop E (lineProtocol E)] @ questQueries E @
                 [writeResults E ''questdb'' outFile]) (enter w)) = (None, w')"
    by (simp add: benchmarkQuestDb_def Let_def del: seq.simps)
  from run_completed [OF this connect_twice post_lineProtocol quest_answers] parts
  show ?thesis by simp
qed

lemma influx_completed:
  assumes "benchmarkInfluxDB E connStr outFile w = (None, w')"
  shows "completedRun E outFile w' []
           (influxEvents E (fst (fluxTimes E)) (snd (fluxTimes E))) (fluxEntry E)"
proof -
  from assms
  have "leave (seq ([] @ [ingestLoop E (writePoints E)] @ influxQueries E @
                 [writeResults E ''influxdb'' outFile]) (enter w)) = (None, w')"
    by (simp add: benchmarkInfluxDB_def del: seq.simps)
  from run_completed [where S = "\<lambda>ev. False", OF this no_connect post_writePoints influx_answers]
  show ?thesis by simp
qed

subsection \<open>Runs that return an error\<close>

lemma effect_silent:
  "effect (\<lambda>ev. A ev \<and> (S ev \<longrightarrow> failure ev = None)) (\<lambda>ev. False) w r w' \<Longrightarrow>
     effect A S w r' w'"
  unfolding effect_def by (elim conjE exE, intro conjI exI) (auto intro: ending_forget)

lemma post_fluxTimed_silent:
  "post body (onW (effect (\<lambda>ev. A ev \<and> (S ev \<longrightarrow> failure ev = None)) (\<lambda>ev. False))) \<Longrightarrow>
     post (fluxTimed n d body) (onW (effect A S))"
  by (auto simp: post_def fluxTimed_def onW_def appendQuery_def Let_def
      split: prod.splits option.splits dest: effect_silent)

lemmas post_blocks = post_timed post_sentinel post_rowQuery post_rowsQuery post_scanBounds
  post_assignMiddle post_hourWindow post_dayWindow

lemma postgres_blocks:
  "list_all (\<lambda>c. post c (onW (effect (\<lambda>ev. \<not> ingestionEvent ev) S))) (postgresQueries E)"
  unfolding postgresQueries_def list.pred_inject
  by (intro conjI TrueI post_blocks) simp_all

lemma timescale_blocks:
  "list_all (\<lambda>c. post c (onW (effect (\<lambda>ev. \<not> ingestionEvent ev) S))) (timescaleQueries E)"
  unfolding timescaleQueries_def list.pred_inject
  by (intro conjI TrueI post_blocks) simp_all

lemma quest_blocks:
  "list_all (\<lambda>c. post c (onW (effect (\<lambda>ev. \<not> ingestionEvent ev) S))) (questQueries E)"
  unfolding questQueries_def list.pred_inject
  by (intro conjI TrueI post_blocks) simp_all

lemma crate_blocks:
  "list_all (\<lambda>c. post c (onW (effect (\<lambda>ev. \<not> ingestionEvent ev) S))) (crateQueries E)"
  using timescale_blocks [of S E] by (simp add: crateQueries_def timescaleQueries_def)

lemma clickHouse_blocks:
  "list_all (\<lambda>c. post c (onW (effect (\<lambda>ev. \<not> ingestionEvent ev) S))) (clickHouseQueries E)"
  using timescale_blocks [of S E] by (simp add: clickHouseQueries_def timescaleQueries_def)

lemma influx_blocks:
  "list_all (\<lambda>c. post c (onW (effect (\<lambda>ev. \<not> ingestionEvent ev) checked)))
     (influxQueries E)"
  unfolding influxQueries_def list.pred_inject
  by (intro conjI TrueI post_fluxTimed_silent post_fluxBounds post_assignMiddle post_flux
      post_hourWindow post_dayWindow) (simp_all add: checked_def)

lemma seq_phases:
  "seq (pre @ [l] @ qs @ [c]) s =
     (case seq (pre @ [l]) s of
        (Some e, s1) \<Rightarrow> (Some e, s1)
      | (None, s1) \<Rightarrow>
          (case seq qs s1 of
             (Some e, s2) \<Rightarrow> (Some e, s2)
           | (None, s2) \<Rightarrow> c s2))"
proof -
  have one: "seq [c] t = c t" for t
    by (cases "c t") (auto split: option.splits)
  have "seq (pre @ [l] @ qs @ [c]) s = seq ((pre @ [l]) @ (qs @ [c])) s" by simp
  also have "\<dots> = (case seq (pre @ [l]) s of
        (Some e, s1) \<Rightarrow> (Some e, s1) | (None, s1) \<Rightarrow> seq (qs @ [c]) s1)"
    by (rule seq_append)
  finally show ?thesis
    by (simp add: seq_append [of qs "[c]"] one split: prod.splits option.splits)
qed

lemma run_aborts:
  assumes run: "leave (seq (pre @ [ingestLoop E g] @ queries @ [writeResults E ty outFile])
                  (enter w)) = (r, w')"
    and pre: "\<And>c. c \<in> set pre \<Longrightarrow> post c (onW (effect (\<lambda>ev. True) S))"
    and g: "\<And>d n i. post (g d n i) (effect (\<lambda>ev. True) S)"
    and queries: "list_all (\<lambda>c. post c (onW (effect (\<lambda>ev. \<not> ingestionEvent ev) S))) queries"
  shows "aborts S w r w'"
proof -
  have loop: "post (ingestLoop E g) (onW (effect (\<lambda>ev. True) S))"
    by (rule post_ingestLoop_effect) (simp_all add: g)
  have first: "post (seq (pre @ [ingestLoop E g])) (onW (effect (\<lambda>ev. True) S))"
    by (rule post_seq_onW) (auto intro: pre loop)
  have second: "post (seq queries) (onW (effect (\<lambda>ev. \<not> ingestionEvent ev) S))"
    using queries by (intro post_seq_onW) (simp add: list_all_iff)
  obtain r1 f1 where p1: "seq (pre @ [ingestLoop E g]) (enter w) = (r1, f1)"
    by (cases "seq (pre @ [ingestLoop E g]) (enter w)")
  obtain r2 f2 where p2: "seq queries f1 = (r2, f2)" by (cases "seq queries f1")
  obtain r3 f3 where p3: "writeResults E ty outFile f2 = (r3, f3)"
    by (cases "writeResults E ty outFile f2")
  from first p1 have "effect (\<lambda>ev. True) S (wld (enter w)) r1 (wld f1)"
    by (simp add: post_def onW_def)
  then have files1: "files (wld f1) = files w" and end1: "ending S (events (wld f1)) r1"
    by (auto simp: effect_def enter_def)
  from second p2 have "effect (\<lambda>ev. \<not> ingestionEvent ev) S (wld f1) r2 (wld f2)"
    by (simp add: post_def onW_def)
  then obtain evs2 where ev2: "events (wld f2) = events (wld f1) @ evs2"
    and files2: "files (wld f2) = files (wld f1)" and end2: "ending S evs2 r2"
    by (auto simp: effect_def)
  from post_writeResults_events [OF p3, of S]
  obtain evs3 where ev3: "events (wld f3) = events (wld f2) @ evs3"
    and kinds3: "\<forall>ev \<in> set evs3. outputEvent ev" and end3: "ending S evs3 r3"
    by auto
  have split: "seq (pre @ [ingestLoop E g] @ queries @ [writeResults E ty outFile]) (enter w) =
      (case r1 of Some e \<Rightarrow> (Some e, f1)
       | None \<Rightarrow> (case r2 of Some e \<Rightarrow> (Some e, f2) | None \<Rightarrow> (r3, f3)))"
    unfolding seq_phases p1 by (simp add: p2 p3 split: option.splits)
  have whole: "(r, w') = (case r1 of Some e \<Rightarrow> (Some e, wld f1)
       | None \<Rightarrow> (case r2 of Some e \<Rightarrow> (Some e, wld f2) | None \<Rightarrow> (r3, wld f3)))"
    using run unfolding split by (cases r1; cases r2; auto simp: leave_def)
  show ?thesis
  proof (cases r1)
    case (Some e)
    with whole have "r = r1" "w' = wld f1"
      by simp_all
    with files1 end1 show ?thesis by (simp add: aborts_def)
  next
    case None
    with end1 end2 have end12: "ending S (events (wld f1) @ evs2) r2"
      by (simp add: ending_append)
    show ?thesis
    proof (cases r2)
      case (Some e)
      with whole None have "r = r2" "w' = wld f2"
        by simp_all
      with ev2 files1 files2 end12 show ?thesis
        by (simp add: aborts_def)
    next
      case r2: None
      from whole None r2 have r: "r = r3" and w': "w' = wld f3"
        by simp_all
      from end12 [unfolded r2] end3
      have end123: "ending S ((events (wld f1) @ evs2) @ evs3) r3"
        by (rule ending_append)
      have "outputEvent (last (events w'))"
        if "events w' \<noteq> []" "S (last (events w'))" "failure (last (events w')) \<noteq> None"
      proof (cases "evs3 = []")
        case True
        with that ev3 ev2 w' have "last (events w') \<in> set (events (wld f1) @ evs2)"
          by (metis append_Nil2 last_in_set)
        with end12 r2 that(2) have "failure (last (events w')) = None"
          by (blast intro: ending_clean)
        with that(3) show ?thesis by simp
      next
        case False
        with ev3 w' have "last (events w') \<in> set evs3"
          by (metis last_appendR last_in_set)
        with kinds3 show ?thesis by blast
      qed
      with end123 ev3 ev2 r w' show ?thesis
        unfolding aborts_def by auto
    qed
  qed
qed

lemma aborts_failed:
  assumes "aborts S w r w'" "ev \<in> set (events w')" "S ev" "failure ev = Some e"
  shows "r = Some e \<and> ev = last (events w') \<and> ev \<notin> set (butlast (events w')) \<and>
         (\<not> outputEvent ev \<longrightarrow> files w' = files w)"
proof -
  from assms(1) have e: "ending S (events w') r" by (simp add: aborts_def)
  from assms(4) have "failure ev \<noteq> None" by simp
  from ending_failed [OF e assms(2,3) this]
  have 1: "r = failure ev" "ev = last (events w')" "ev \<notin> set (butlast (events w'))"
    by blast+
  moreover from assms(2) have "events w' \<noteq> []" by auto
  ultimately show ?thesis
    using assms(1,3,4) unfolding aborts_def by (metis option.distinct(1))
qed

lemma postgres_aborts:
  assumes "benchmarkPostgres E connStr outFile w = (r, w')"
  shows "aborts (\<lambda>ev. True) w r w'"
proof -
  from assms
  have "leave (seq ([onWorld (extcall E (PoolNew connStr)),
                  onWorld (execDDL E [CreateTable ''user_events'',
                                      CreateIndexIfNotExists ''idx_user_events_timestamp''])] @
                 [ingestLoop E (copyFromRows E)] @ postgresQueries E @
                 [writeResults E ''postgres'' outFile]) (enter w)) = (r, w')"
    by (simp add: benchmarkPostgres_def del: seq.simps)
  then show ?thesis
    by (rule run_aborts)
      (auto intro!: post_onWorld post_extcall post_execDDL post_copyFromRows postgres_blocks)
qed

lemma timescale_aborts:
  assumes "benchmarkTimescaleDb E connStr outFile w = (r, w')"
  shows "aborts (\<lambda>ev. True) w r w'"
proof -
  from assms
  have "leave (seq ([onWorld (extcall E (PoolNew connStr)),
                  onWorld (execDDL E [CreateTable ''user_events'',
                                      CreateHypertableIfNotExists ''user_events''])] @
                 [ingestLoop E (copyFromRows E)] @ timescaleQueries E @
                 [writeResults E ''timescaledb'' outFile]) (enter w)) = (r, w')"
    by (simp add: benchmarkTimescaleDb_def del: seq.simps)
  then show ?thesis
    by (rule run_aborts)
      (auto intro!: post_onWorld post_extcall post_execDDL post_copyFromRows timescale_blocks)
qed

lemma crate_aborts:
  assumes "benchmarkCrateDB E connStr outFile w = (r, w')"
  shows "aborts (\<lambda>ev. True) w r w'"
proof -
  from assms
  have "leave (seq ([onWorld (extcall E (PoolNew connStr)),
                  onWorld (execDDL E [CreateTableIfNotExists ''user_events''])] @
                 [ingestLoop E (sendBatch E)] @ crateQueries E @
                 [writeResults E ''cratedb'' outFile]) (enter w)) = (r, w')"
    by (simp add: benchmarkCrateDB_def del: seq.simps)
  then show ?thesis
    by (rule run_aborts)
      (auto intro!: post_onWorld post_extcall post_execDDL post_sendBatch crate_blocks)
qed

lemma clickHouse_aborts:
  assumes "benchmarkClickHouse E connStr outFile w = (r, w')"
  shows "aborts (\<lambda>ev. True) w r w'"
proof -
  from assms
  have "leave (seq ([onWorld (extcall E Ping),
                  onWorld (execDDL E [CreateTableIfNotExists ''user_events''])] @
                 [ingestLoop E (txInsert E)] @ clickHouseQueries E @
                 [writeResults E ''clickhouse'' outFile]) (enter w)) = (r, w')"
    by (simp add: benchmarkClickHouse_def del: seq.simps)
  then show ?thesis
    by (rule run_aborts)
      (auto intro!: post_onWorld post_extcall post_execDDL post_txInsert clickHouse_blocks)
qed

lemma quest_aborts:
  assumes "benchmarkQuestDb E connStr outFile w = (r, w')"
  shows "aborts (\<lambda>ev. True) w r w'"
proof (cases "length (strings_Split connStr '':::'') = 2")
  case False
  with assms have "events w' = []"
    by (auto simp: benchmarkQuestDb_def Let_def leave_def enter_def)
  then show ?thesis by (simp add: aborts_def ending_Nil)
next
  case True
  with assms
  have "leave (seq ([onWorld (extcall E (LineSenderFromConf (strings_Split connStr '':::'' ! 0))),
                  onWorld (extcall E (PoolNew (strings_Split connStr '':::'' ! 1)))] @
                 [ingestLoop E (lineProtocol E)] @ questQueries E @
                 [writeResults E ''questdb'' outFile]) (enter w)) = (r, w')"
    by (simp add: benchmarkQuestDb_def Let_def del: seq.simps)
  then show ?thesis
    by (rule run_aborts)
      (auto intro!: post_onWorld post_extcall post_lineProtocol quest_blocks)
qed

lemma influx_aborts:
  assumes "benchmarkInfluxDB E connStr outFile w = (r, w')"
  shows "aborts checked w r w'"
proof -
  from assms
  have "leave (seq ([] @ [ingestLoop E (writePoints E)] @ influxQueries E @
                 [writeResults E ''influxdb'' outFile]) (enter w)) = (r, w')"
    by (simp add: benchmarkInfluxDB_def del: seq.simps)
  then show ?thesis
    by (rule run_aborts) (auto intro!: post_writePoints influx_blocks simp: checked_def)
qed

subsection \<open>The reader\<close>

lemma Itoa_small: "Itoa 0 = ''0''" "Itoa 1 = ''1''"
  by (simp_all add: Itoa_def decimal.simps)

lemma chunkPath_small:
  "chunkPath 0 = ''../data/readings/readings_0.json''"
  "chunkPath (Suc 0) = ''../data/readings/readings_1.json''"
  by (simp_all add: chunkPath_def Itoa_small)

lemma calmEnv_sel:
  "fault calmEnv c = None"
  "latency calmEnv c = 2000000"
  "bounds calmEnv = (time_Unix 1000, time_Unix 8200)"
  "minRecords calmEnv = [time_Unix 1000]"
  "maxRecords calmEnv = [time_Unix 8200]"
  "fsOpen calmEnv = twoChunks"
  "fsReadDir calmEnv path = Inr [''readings_0.json'', ''readings_1.json'']"
  by (simp_all add: calmEnv_def)

lemma freshWorld_sel:
  "catalog freshWorld = []" "files freshWorld = Map.empty"
  "clock freshWorld = 0" "events freshWorld = []"
  by (simp_all add: freshWorld_def)

lemma calmEnv_chunkFiles: "chunkFiles calmEnv [chunkA, chunkB]"
  by (simp add: chunkFiles_def calmEnv_sel twoChunks_def chunkPath_small less_Suc_eq
      numeral_2_eq_2 all_conj_distrib)

lemma chunkFiles_load:
  assumes "chunkFiles E chunks" "i < length chunks"
  shows "loadDataChunk E (int i) = Inr (Suc i < length chunks, chunks ! i)"
proof -
  from assms(1) obtain names where dir: "fsReadDir E ''../data/readings'' = Inr names"
    and len: "length names = length chunks"
    by (auto simp: chunkFiles_def split: sum.splits)
  from assms have opened: "fsOpen E (chunkPath i) = Inr (Inr (chunks ! i))"
    by (simp add: chunkFiles_def)
  have "(int i + 1 < int (length chunks)) = (Suc i < length chunks)" by auto
  with dir len opened show ?thesis
    by (simp add: loadDataChunk_def chunkPath_def)
qed

text \<open>
  C6. Whenever \<open>loadDataChunk(index)\<close> returns a chunk, \<open>hasMore\<close> is true exactly when
  \<open>index + 1\<close> is less than the number of entries \<open>os.ReadDir\<close> lists. For a directory of
  exactly \<open>K\<close> chunk files, the calls for the indices \<open>0 .. K-1\<close> all return their chunk,
  and \<open>hasMore\<close> is false on the call for \<open>K-1\<close> and on no call before it.
\<close>

theorem loadDataChunk_hasMore:
  "(loadDataChunk E index = Inr (hasMore, d) \<longrightarrow>
      (\<exists>names. fsReadDir E ''../data/readings'' = Inr names \<and>
               (hasMore \<longleftrightarrow> index + 1 < int (length names)))) \<and>
   (chunkFiles E chunks \<longrightarrow>
      (\<forall>i < length chunks.
         loadDataChunk E (int i) = Inr (i \<noteq> length chunks - 1, chunks ! i)))"
proof (intro conjI impI allI)
  assume "loadDataChunk E index = Inr (hasMore, d)"
  then show "\<exists>names. fsReadDir E ''../data/readings'' = Inr names \<and>
               (hasMore \<longleftrightarrow> index + 1 < int (length names))"
    by (auto simp: loadDataChunk_def split: sum.splits if_splits)
next
  fix i
  assume dir: "chunkFiles E chunks" and i: "i < length chunks"
  from i have "(Suc i < length chunks) = (i \<noteq> length chunks - 1)" by auto
  with chunkFiles_load [OF dir i]
  show "loadDataChunk E (int i) = Inr (i \<noteq> length chunks - 1, chunks ! i)" by simp
qed

theorem loadDataChunk_hasMore_witness:
  "chunkFiles calmEnv [chunkA, chunkB] \<and>
   loadDataChunk calmEnv 0 = Inr (True, chunkA) \<and>
   loadDataChunk calmEnv 1 = Inr (False, chunkB) \<and>
   (\<exists>names. fsReadDir calmEnv ''../data/readings'' = Inr names \<and>
            (False \<longleftrightarrow> 1 + 1 < int (length names)))"
proof -
  have both: "\<forall>i < length [chunkA, chunkB].
      loadDataChunk calmEnv (int i) = Inr (i \<noteq> length [chunkA, chunkB] - 1, [chunkA, chunkB] ! i)"
    using loadDataChunk_hasMore [of calmEnv 1 False chunkB "[chunkA, chunkB]"] calmEnv_chunkFiles
    by blast
  from both [rule_format, of 0] have l0: "loadDataChunk calmEnv 0 = Inr (True, chunkA)"
    by simp
  from both [rule_format, of 1] have l1: "loadDataChunk calmEnv 1 = Inr (False, chunkB)"
    by simp
  from l1 loadDataChunk_hasMore [of calmEnv 1 False chunkB "[chunkA, chunkB]"]
  have "\<exists>names. fsReadDir calmEnv ''../data/readings'' = Inr names \<and>
            (False \<longleftrightarrow> 1 + 1 < int (length names))"
    by blast
  with l0 l1 calmEnv_chunkFiles show ?thesis by blast
qed

subsection \<open>Example runs\<close>

lemma ingestLoop_last:
  "fst (ingestStep E g f) = Inr False \<Longrightarrow> ingestLoop E g f = (None, snd (ingestStep E g f))"
  by (subst ingestLoop.simps) (auto split: prod.splits sum.splits)

lemma ingestLoop_more:
  "fst (ingestStep E g f) = Inr True \<Longrightarrow> ingestLoop E g f = ingestLoop E g (snd (ingestStep E g f))"
  by (subst ingestLoop.simps) (auto split: prod.splits sum.splits)

lemma ingestLoop_err:
  "fst (ingestStep E g f) = Inl e \<Longrightarrow> ingestLoop E g f = (Some e, snd (ingestStep E g f))"
  by (subst ingestLoop.simps) (auto split: prod.splits sum.splits)

lemma calm_load:
  "loadDataChunk calmEnv 0 = Inr (True, chunkA)"
  "loadDataChunk calmEnv 1 = Inr (False, chunkB)"
  using chunkFiles_load [OF calmEnv_chunkFiles, of 0] chunkFiles_load [OF calmEnv_chunkFiles, of 1]
  by simp_all

lemmas times = time_Unix_def time_Add_def time_Sub_def time_Since_def Milliseconds_def
  go_div_def middleOf_def Second_def Hour_def maxDuration_def minDuration_def zeroTime_def

lemmas evals = ingestLoop_last ingestLoop_more ingestLoop_err ingestStep_def loaded_def
  extcall_def extcallUnchecked_def execDDL_def onWorld_def enter_def leave_def timed_def
  sentinel_def fluxTimed_def rowQuery_def rowsQuery_def flux_def scanBounds_def fluxBounds_def
  lastRecord_def assignMiddle_def assigned_def hourWindow_def dayWindow_def appendQuery_def
  writeResults_def copyFromRows_def lineProtocol_def sendBatch_def txInsert_def writePoints_def
  toRow_def chunkA_def chunkB_def mkReading_def Let_def times


lemma postgres_calm:
  "benchmarkPostgres calmEnv ''postgres://bench'' ''results.json'' freshWorld =
     (None,
      \<lparr>catalog = [''user_events'', ''idx_user_events_timestamp''],
       files = [''results.json'' \<mapsto> Encoded
         \<lparr>DbType = ''postgres'',
          Ingestion = [\<lparr>IngestDurationMs = 2, NRecords = 3\<rparr>,
                       \<lparr>IngestDurationMs = 2, NRecords = 5\<rparr>],
          Queries =
            [\<lparr>QueryId = 1, DurationMs = 2, Description = ''Get time bounds''\<rparr>,
             \<lparr>QueryId = 2, DurationMs = 2, Description = ''Count all records''\<rparr>,
             \<lparr>QueryId = 3, DurationMs = 2, Description = ''Count distinct users''\<rparr>,
             \<lparr>QueryId = 4, DurationMs = 2, Description = ''Average RSSI''\<rparr>,
             \<lparr>QueryId = 5, DurationMs = 2, Description = ''Records before middle time''\<rparr>,
             \<lparr>QueryId = 6, DurationMs = 2, Description = ''Records after middle time''\<rparr>,
             \<lparr>QueryId = 7, DurationMs = 2, Description = aroundMiddle\<rparr>,
             \<lparr>QueryId = 8, DurationMs = - 1,
               Description = ''24 hours aggregation from middle time''\<rparr>,
             \<lparr>QueryId = 9, DurationMs = 2, Description = ''Top 10 users by activity''\<rparr>,
             \<lparr>QueryId = 10, DurationMs = 2, Description = ''Records with strong signal''\<rparr>,
             \<lparr>QueryId = 11, DurationMs = 2, Description = ''Records with weak signal''\<rparr>,
             \<lparr>QueryId = 12, DurationMs = 2, Description = ''Top SSIDs''\<rparr>,
             \<lparr>QueryId = 13, DurationMs = 2, Description = ''RSSI statistics by user''\<rparr>,
             \<lparr>QueryId = 14, DurationMs = - 1, Description = ''RSSI percentiles''\<rparr>,
             \<lparr>QueryId = 15, DurationMs = 2, Description = ''Records in first half''\<rparr>,
             \<lparr>QueryId = 16, DurationMs = 2, Description = ''Records in second half''\<rparr>,
             \<lparr>QueryId = 17, DurationMs = - 1,
               Description = ''Hourly user activity patterns''\<rparr>,
             \<lparr>QueryId = 18, DurationMs = - 1, Description = ''Daily RSSI variance''\<rparr>,
             \<lparr>QueryId = 19, DurationMs = - 1, Description = ''Peak usage hours''\<rparr>,
             \<lparr>QueryId = 20, DurationMs = - 1,
               Description = ''User session duration analysis''\<rparr>]\<rparr>],
       clock = 40000000,
       events =
         [Called (PoolNew ''postgres://bench'') None,
          Called (Exec [CreateTable ''user_events'',
                        CreateIndexIfNotExists ''idx_user_events_timestamp'']) None,
          Loaded 0 None,
          Called (CopyFrom 0 (map toRow (Response chunkA))) None,
          Loaded 1 None,
          Called (CopyFrom 1 (map toRow (Response chunkB))) None,
          Called (QueryRow 1 []) None,
          Assigned ''middleTime'' (time_Unix 4600),
          Called (QueryRow 2 []) None,
          Called (QueryRow 3 []) None,
          Called (QueryRow 4 []) None,
          Called (QueryRow 5 [time_Unix 4600]) None,
          Called (QueryRow 6 [time_Unix 4600]) None,
          Assigned ''hourBefore'' (time_Unix 1000),
          Assigned ''hourAfter'' (time_Unix 8200),
          Called (QueryRow 7 [time_Unix 1000, time_Unix 8200]) None,
          Called (Query 9 []) None,
          Called (QueryRow 10 []) None,
          Called (QueryRow 11 []) None,
          Called (Query 12 []) None,
          Called (Query 13 []) None,
          Called (QueryRow 15 [time_Unix 1000, time_Unix 4600]) None,
          Called (QueryRow 16 [time_Unix 4600, time_Unix 8200]) None,
          Called (Create ''results.json'') None,
          Called (Encode ''results.json'') None]\<rparr>)"
  by (simp add: benchmarkPostgres_def postgresQueries_def evals calm_load calmEnv_sel
      freshWorld_sel)


lemma failing_sel:
  "fault (failing c e) x = (if x = c then Some e else None)"
  "latency (failing c e) x = 2000000"
  "bounds (failing c e) = (time_Unix 1000, time_Unix 8200)"
  "minRecords (failing c e) = [time_Unix 1000]"
  "maxRecords (failing c e) = [time_Unix 8200]"
  by (simp_all add: failing_def calmEnv_def)

lemma failing_load: "loadDataChunk (failing c e) = loadDataChunk calmEnv"
  by (simp add: failing_def loadDataChunk_def fun_eq_iff cong: sum.case_cong)

lemma rejectingEnv_sel:
  "fault rejectingEnv (WritePoints i rows) = Some ''unauthorized access''"
  "fault rejectingEnv (FluxQuery n args) = None"
  "fault rejectingEnv FluxQueryMax = None"
  "fault rejectingEnv (Create path) = None"
  "fault rejectingEnv (Encode path) = None"
  "latency rejectingEnv x = 2000000"
  "minRecords rejectingEnv = [time_Unix 1000]"
  "maxRecords rejectingEnv = [time_Unix 8200]"
  by (simp_all add: rejectingEnv_def calmEnv_def)

lemma rejectingEnv_load: "loadDataChunk rejectingEnv = loadDataChunk calmEnv"
  by (simp add: rejectingEnv_def loadDataChunk_def fun_eq_iff cong: sum.case_cong)

lemma truncatedEnv_sel:
  "fault truncatedEnv x = None"
  "latency truncatedEnv x = 2000000"
  "loadDataChunk truncatedEnv 0 = Inr (True, chunkA)"
  "loadDataChunk truncatedEnv 1 = Inl ''unexpected end of JSON input''"
  by (simp_all add: truncatedEnv_def calmEnv_def loadDataChunk_def Itoa_small)

lemma postgres_query1_fails:
  "benchmarkPostgres (failing (QueryRow 1 []) ''connection reset'')
     ''postgres://bench'' ''results.json'' freshWorld =
     (Some ''connection reset'',
      \<lparr>catalog = [''user_events'', ''idx_user_events_timestamp''],
       files = Map.empty,
       clock = 10000000,
       events =
         [Called (PoolNew ''postgres://bench'') None,
          Called (Exec [CreateTable ''user_events'',
                        CreateIndexIfNotExists ''idx_user_events_timestamp'']) None,
          Loaded 0 None,
          Called (CopyFrom 0 (map toRow (Response chunkA))) None,
          Loaded 1 None,
          Called (CopyFrom 1 (map toRow (Response chunkB))) None,
          Called (QueryRow 1 []) (Some ''connection reset'')]\<rparr>)"
  by (simp add: benchmarkPostgres_def postgresQueries_def evals failing_load calm_load
      failing_sel freshWorld_sel)

lemma postgres_truncated:
  "benchmarkPostgres truncatedEnv ''postgres://bench'' ''results.json'' freshWorld =
     (Some ''unexpected end of JSON input'',
      \<lparr>catalog = [''user_events'', ''idx_user_events_timestamp''],
       files = Map.empty,
       clock = 6000000,
       events =
         [Called (PoolNew ''postgres://bench'') None,
          Called (Exec [CreateTable ''user_events'',
                        CreateIndexIfNotExists ''idx_user_events_timestamp'']) None,
          Loaded 0 None,
          Called (CopyFrom 0 (map toRow (Response chunkA))) None,
          Loaded 1 (Some ''unexpected end of JSON input'')]\<rparr>)"
  by (simp add: benchmarkPostgres_def postgresQueries_def evals truncatedEnv_sel
      freshWorld_sel)

lemma postgres_copy_fails:
  "benchmarkPostgres (failing (CopyFrom 0 (map toRow (Response chunkA))) ''connection reset'')
     ''postgres://bench'' ''results.json'' freshWorld =
     (Some ''connection reset'',
      \<lparr>catalog = [''user_events'', ''idx_user_events_timestamp''],
       files = Map.empty,
       clock = 6000000,
       events =
         [Called (PoolNew ''postgres://bench'') None,
          Called (Exec [CreateTable ''user_events'',
                        CreateIndexIfNotExists ''idx_user_events_timestamp'']) None,
          Loaded 0 None,
          Called (CopyFrom 0 (map toRow (Response chunkA))) (Some ''connection reset'')]\<rparr>)"
  by (simp add: benchmarkPostgres_def postgresQueries_def evals failing_load calm_load
      failing_sel freshWorld_sel)

lemma influx_rejecting:
  "benchmarkInfluxDB rejectingEnv ''http://influx'' ''results.json'' freshWorld =
     (None,
      \<lparr>catalog = [],
       files = [''results.json'' \<mapsto> Encoded
         \<lparr>DbType = ''influxdb'',
          Ingestion = [\<lparr>IngestDurationMs = 2, NRecords = 3\<rparr>,
                       \<lparr>IngestDurationMs = 2, NRecords = 5\<rparr>],
          Queries =
            [
\<lparr>QueryId = 1, DurationMs = 4, Description = ''Get time bounds''\<rparr>,
             \<lparr>QueryId = 2, DurationMs = 2, Description = ''Count all records''\<rparr>,
             \<lparr>QueryId = 3, DurationMs = 2, Description = ''Count distinct users''\<rparr>,
             \<lparr>QueryId = 4, DurationMs = 2, Description = ''Average RSSI''\<rparr>,
             \<lparr>QueryId = 5, DurationMs = 2, Description = ''Records before middle time''\<rparr>,
             \<lparr>QueryId = 6, DurationMs = 2, Description = ''Records after middle time''\<rparr>,
             \<lparr>QueryId = 7, DurationMs = 2, Description = aroundMiddle\<rparr>,
             \<lparr>QueryId = 8, DurationMs = 2, Description = ''24 hours aggregation from middle time''\<rparr>,
             \<lparr>QueryId = 9, DurationMs = 2, Description = ''Top 10 users by activity''\<rparr>,
             \<lparr>QueryId = 10, DurationMs = 2, Description = ''Records with strong signal''\<rparr>,
             \<lparr>QueryId = 11, DurationMs = 2, Description = ''Records with weak signal''\<rparr>,
             \<lparr>QueryId = 12, DurationMs = 2, Description = ''Top SSIDs''\<rparr>,
             \<lparr>QueryId = 13, DurationMs = 2, Description = ''RSSI statistics by user''\<rparr>,
             \<lparr>QueryId = 14, DurationMs = 2, Description = ''RSSI percentiles''\<rparr>,
             \<lparr>QueryId = 15, DurationMs = 2, Description = ''Records in first half''\<rparr>,
             \<lparr>QueryId = 16, DurationMs = 2, Description = ''Records in second half''\<rparr>,
             \<lparr>QueryId = 17, DurationMs = 2, Description = ''Hourly user activity patterns''\<rparr>,
             \<lparr>QueryId = 18, DurationMs = 2, Description = ''Daily RSSI variance''\<rparr>,
             \<lparr>QueryId = 19, DurationMs = 2, Description = ''Peak usage hours''\<rparr>,
             \<lparr>QueryId = 20, DurationMs = 2, Description = ''User session duration analysis''\<rparr>]\<rparr>],
       clock = 50000000,
       events =
         [Loaded 0 None,
          Called (WritePoints 0 (map toRow (Response chunkA))) (Some ''unauthorized access''),
          Loaded 1 None,
          Called (WritePoints 1 (map toRow (Response chunkB))) (Some ''unauthorized access''),
          Called (FluxQuery 1 []) None,
          Called FluxQueryMax None,
          Assigned ''middleTime'' (time_Unix 4600),
          Called (FluxQuery 2 []) None,
          Called (FluxQuery 3 []) None,
          Called (FluxQuery 4 []) None,
          Called (FluxQuery 5 [time_Unix 4600]) None,
          Called (FluxQuery 6 [time_Unix 4600]) None,
          Assigned ''hourBefore'' (time_Unix 1000),
          Assigned ''hourAfter'' (time_Unix 8200),
          Called (FluxQuery 7 [time_Unix 1000, time_Unix 8200]) None,
          Assigned ''dayAfter'' (time_Unix 91000),
          Called (FluxQuery 8 [time_Unix 4600, time_Unix 91000]) None,
          Called (FluxQuery 9 []) None,
          Called (FluxQuery 10 []) None,
          Called (FluxQuery 11 []) None,
          Called (FluxQuery 12 []) None,
          Called (FluxQuery 13 []) None,
          Called (FluxQuery 14 []) None,
          Called (FluxQuery 15 [time_Unix 1000, time_Unix 4600]) None,
          Called (FluxQuery 16 [time_Unix 4600, time_Unix 8200]) None,
          Called (FluxQuery 17 []) None,
          Called (FluxQuery 18 []) None,
          Called (FluxQuery 19 []) None,
          Called (FluxQuery 20 []) None,
          Called (Create ''results.json'') None,
          Called (Encode ''results.json'') None]\<rparr>)"
  by (simp add: benchmarkInfluxDB_def influxQueries_def evals rejectingEnv_load calm_load
      rejectingEnv_sel freshWorld_sel Format_RFC3339_def)

subsection \<open>The result file\<close>

lemma completedRun_weaken:
  "completedRun E outFile w' before queried P \<Longrightarrow>
     completedRun E outFile w' before queried (\<lambda>q. True)"
  unfolding completedRun_def by blast

lemma any_completed:
  assumes "benchmark \<in> set benchmarkFunctions" "benchmark E connStr outFile w = (None, w')"
  shows "\<exists>before queried. completedRun E outFile w' before queried (\<lambda>q. True)"
proof -
  from assms(1) consider "benchmark = benchmarkPostgres" | "benchmark = benchmarkTimescaleDb"
    | "benchmark = benchmarkQuestDb" | "benchmark = benchmarkInfluxDB"
    | "benchmark = benchmarkCrateDB" | "benchmark = benchmarkClickHouse"
    by (auto simp: benchmarkFunctions_def)
  then show ?thesis
  proof cases
    case 1
    with assms(2) show ?thesis by (blast dest: postgres_completed completedRun_weaken)
  next
    case 2
    with assms(2) show ?thesis by (blast dest: timescale_completed completedRun_weaken)
  next
    case 3
    with assms(2) show ?thesis by (blast dest: quest_completed completedRun_weaken)
  next
    case 4
    with assms(2) show ?thesis by (blast dest: influx_completed completedRun_weaken)
  next
    case 5
    with assms(2) show ?thesis by (blast dest: crate_completed completedRun_weaken)
  next
    case 6
    with assms(2) show ?thesis by (blast dest: clickHouse_completed completedRun_weaken)
  qed
qed

lemma one_to_twenty:
  "length [1..20::int] = 20" "set [1..20::int] = {1..20}" "distinct [1..20::int]"
  "sorted_wrt (<) [1..20::int]"
  by (simp_all add: strict_sorted_iff)

text \<open>
  C1. Whenever one of the six benchmark functions returns without error, the result it
  has encoded into the output file lists exactly 20 query entries, and their identifiers
  are 1, 2, ..., 20 in this order: strictly increasing, without duplicate and without
  gap. This holds whatever the backend supports: the PostgreSQL function, which runs
  fourteen of the queries, still writes the entries 8, 14, 17, 18, 19 and 20, with the
  duration \<open>-1\<close>.
\<close>

theorem queries_one_to_twenty:
  assumes "benchmark \<in> set benchmarkFunctions"
    and "benchmark E connStr outFile w = (None, w')"
  shows "\<exists>r. files w' outFile = Some (Encoded r) \<and>
             length (Queries r) = 20 \<and>
             map QueryId (Queries r) = [1..20] \<and>
             set (map QueryId (Queries r)) = {1..20} \<and>
             distinct (map QueryId (Queries r)) \<and>
             sorted_wrt (<) (map QueryId (Queries r)) \<and>
             (benchmark = benchmarkPostgres \<longrightarrow>
                (\<forall>q \<in> set (Queries r).
                   QueryId q \<in> {8, 14, 17, 18, 19, 20} \<longrightarrow> DurationMs q = - 1))"
proof -
  from any_completed [OF assms] obtain r where
    written: "files w' outFile = Some (Encoded r)" and ids: "map QueryId (Queries r) = [1..20]"
    unfolding completedRun_def by blast
  from ids have "length (map QueryId (Queries r)) = 20" by (simp only: one_to_twenty)
  then have len: "length (Queries r) = 20" by simp
  have sentinel: "\<forall>q \<in> set (Queries r).
      QueryId q \<in> {8, 14, 17, 18, 19, 20} \<longrightarrow> DurationMs q = - 1"
    if "benchmark = benchmarkPostgres"
  proof -
    from that assms(2) have "benchmarkPostgres E connStr outFile w = (None, w')" by simp
    from postgres_completed [OF this] written
    have "\<forall>q \<in> set (Queries r). postgresEntry q"
      unfolding completedRun_def by auto
    then show ?thesis by (auto simp: postgresEntry_def)
  qed
  from written len ids sentinel show ?thesis
    by (intro exI [of _ r]) (simp only: one_to_twenty, blast)
qed


theorem queries_one_to_twenty_witness:
  "benchmarkPostgres \<in> set benchmarkFunctions \<and>
   fst (benchmarkPostgres calmEnv ''postgres://bench'' ''results.json'' freshWorld) = None \<and>
   (\<exists>r. files (snd (benchmarkPostgres calmEnv ''postgres://bench'' ''results.json'' freshWorld))
          ''results.json'' = Some (Encoded r) \<and>
        length (Queries r) = 20 \<and>
        map QueryId (Queries r) = [1..20] \<and>
        map DurationMs (Queries r) =
          [2, 2, 2, 2, 2, 2, 2, - 1, 2, 2, 2, 2, 2, - 1, 2, 2, - 1, - 1, - 1, - 1])"
proof -
  let ?run = "benchmarkPostgres calmEnv ''postgres://bench'' ''results.json'' freshWorld"
  have member: "benchmarkPostgres \<in> set benchmarkFunctions"
    by (simp add: benchmarkFunctions_def)
  have returned: "fst ?run = None"
    by (simp add: postgres_calm)
  then have run: "?run = (None, snd ?run)"
    by (metis prod.collapse)
  from queries_one_to_twenty [OF member run]
  obtain r where r: "files (snd ?run) ''results.json'' = Some (Encoded r)"
    "length (Queries r) = 20" "map QueryId (Queries r) = [1..20]"
    by blast
  from r(1) have "map DurationMs (Queries r) =
      [2, 2, 2, 2, 2, 2, 2, - 1, 2, 2, 2, 2, 2, - 1, 2, 2, - 1, - 1, - 1, - 1]"
    by (auto simp: postgres_calm)
  with r have "\<exists>r. files (snd ?run) ''results.json'' = Some (Encoded r) \<and>
        length (Queries r) = 20 \<and>
        map QueryId (Queries r) = [1..20] \<and>
        map DurationMs (Queries r) =
          [2, 2, 2, 2, 2, 2, 2, - 1, 2, 2, 2, 2, 2, - 1, 2, 2, - 1, - 1, - 1, - 1]"
    by (intro exI [of _ r]) simp
  with member returned show ?thesis by (intro conjI)
qed

lemma chunkFiles_total:
  assumes "chunkFiles E chunks" "k \<le> length chunks"
  shows "total E k = (\<Sum>j < k. int (length (Response (chunks ! j))))"
  unfolding total_def
proof (rule sum.cong)
  fix j
  assume "j \<in> {..<k}"
  with assms(2) have "j < length chunks" by simp
  from chunkFiles_load [OF assms(1) this]
  show "chunkSize E j = int (length (Response (chunks ! j)))"
    by (simp add: chunkSize_def)
qed simp

lemma chunkFiles_dirCount: "chunkFiles E chunks \<Longrightarrow> dirCount E = int (length chunks)"
  by (auto simp: chunkFiles_def dirCount_def split: sum.splits)

lemma total_mono: "i \<le> j \<Longrightarrow> total E i \<le> total E j"
  unfolding total_def
  by (rule sum_mono2) (auto simp: chunkSize_def split: sum.splits)

lemma sorted_totals: "sorted (map (\<lambda>i. total E (Suc i)) [0..<n])"
  by (auto simp: sorted_map sorted_wrt_iff_nth_less intro!: total_mono)

text \<open>
  C7. Whenever one of the six benchmark functions returns without error, the \<open>nRecords\<close>
  of the \<open>i\<close>-th ingestion sample of the result is the sum of the sizes of the chunks
  \<open>0 .. i\<close>, not the size of chunk \<open>i\<close>; the values are non-decreasing. For a directory of
  exactly the chunks \<open>chunks\<close> there is one sample per chunk and the last value is the sum
  of all chunk sizes. Two chunks of 3 and 2 events give the values 3 and 5.
\<close>

theorem ingestion_samples_cumulative:
  assumes "benchmark \<in> set benchmarkFunctions"
    and "benchmark E connStr outFile w = (None, w')"
  shows "\<exists>r. files w' outFile = Some (Encoded r) \<and>
             map NRecords (Ingestion r) =
               map (\<lambda>i. \<Sum>j \<le> i. chunkSize E j) [0..<nat (max 1 (dirCount E))] \<and>
             sorted (map NRecords (Ingestion r)) \<and>
             (chunkFiles E chunks \<and> chunks \<noteq> [] \<longrightarrow>
                map NRecords (Ingestion r) =
                  map (\<lambda>i. \<Sum>j \<le> i. int (length (Response (chunks ! j))))
                    [0..<length chunks] \<and>
                NRecords (last (Ingestion r)) =
                  (\<Sum>c \<leftarrow> chunks. int (length (Response c))))"
proof -
  from any_completed [OF assms] obtain r where
    written: "files w' outFile = Some (Encoded r)"
    and samples: "map NRecords (Ingestion r) =
        map (\<lambda>i. total E (Suc i)) [0..<nat (max 1 (dirCount E))]"
    unfolding completedRun_def by blast
  have sums: "total E (Suc i) = (\<Sum>j \<le> i. chunkSize E j)" for i
    by (simp add: total_def lessThan_Suc_atMost)
  have 1: "map NRecords (Ingestion r) =
      map (\<lambda>i. \<Sum>j \<le> i. chunkSize E j) [0..<nat (max 1 (dirCount E))]"
    using samples by (simp add: sums)
  have 2: "sorted (map NRecords (Ingestion r))"
    unfolding samples by (rule sorted_totals)
  have 3: "map NRecords (Ingestion r) =
         map (\<lambda>i. \<Sum>j \<le> i. int (length (Response (chunks ! j)))) [0..<length chunks] \<and>
       NRecords (last (Ingestion r)) = (\<Sum>c \<leftarrow> chunks. int (length (Response c)))"
    if dir: "chunkFiles E chunks" and ne: "chunks \<noteq> []"
  proof -
    from ne have pos: "0 < length chunks" by simp
    with chunkFiles_dirCount [OF dir]
    have n: "nat (max 1 (dirCount E)) = length chunks" by (simp add: max_def Suc_le_eq)
    have each: "total E (Suc i) = (\<Sum>j \<le> i. int (length (Response (chunks ! j))))"
      if "i < length chunks" for i
      using chunkFiles_total [OF dir, of "Suc i"] that by (simp add: lessThan_Suc_atMost)
    from samples have a: "map NRecords (Ingestion r) =
        map (\<lambda>i. \<Sum>j \<le> i. int (length (Response (chunks ! j)))) [0..<length chunks]"
      unfolding n by (simp add: each)
    from a pos have ne': "Ingestion r \<noteq> []" by auto
    then have "NRecords (last (Ingestion r)) = last (map NRecords (Ingestion r))"
      by (simp add: last_map)
    also have "\<dots> = (\<Sum>j \<le> length chunks - 1. int (length (Response (chunks ! j))))"
      unfolding a using pos by (simp add: last_map)
    also have "\<dots> = (\<Sum>j < length chunks. int (length (Response (chunks ! j))))"
      using pos by (metis Suc_pred' lessThan_Suc_atMost)
    also have "\<dots> = (\<Sum>c \<leftarrow> chunks. int (length (Response c)))"
      by (simp add: sum_list_sum_nth atLeast0LessThan)
    finally show ?thesis using a by simp
  qed
  from written 1 2 3 show ?thesis by blast
qed

theorem ingestion_samples_cumulative_witness:
  "benchmarkPostgres \<in> set benchmarkFunctions \<and>
   fst (benchmarkPostgres calmEnv ''postgres://bench'' ''results.json'' freshWorld) = None \<and>
   chunkFiles calmEnv [chunkA, chunkB] \<and>
   length (Response chunkA) = 3 \<and> length (Response chunkB) = 2 \<and>
   (\<exists>r. files (snd (benchmarkPostgres calmEnv ''postgres://bench'' ''results.json'' freshWorld))
          ''results.json'' = Some (Encoded r) \<and>
        map NRecords (Ingestion r) = [3, 5] \<and>
        NRecords (last (Ingestion r)) = 5)"
proof -
  let ?run = "benchmarkPostgres calmEnv ''postgres://bench'' ''results.json'' freshWorld"
  have member: "benchmarkPostgres \<in> set benchmarkFunctions"
    by (simp add: benchmarkFunctions_def)
  have returned: "fst ?run = None"
    by (simp add: postgres_calm)
  then have run: "?run = (None, snd ?run)"
    by (metis prod.collapse)
  have sizes: "length (Response chunkA) = 3" "length (Response chunkB) = 2"
    by (simp_all add: chunkA_def chunkB_def)
  from ingestion_samples_cumulative [OF member run, of "[chunkA, chunkB]"] calmEnv_chunkFiles
  obtain r where r: "files (snd ?run) ''results.json'' = Some (Encoded r)"
    "map NRecords (Ingestion r) =
       map (\<lambda>i. \<Sum>j \<le> i. int (length (Response ([chunkA, chunkB] ! j))))
         [0..<length [chunkA, chunkB]]"
    "NRecords (last (Ingestion r)) = (\<Sum>c \<leftarrow> [chunkA, chunkB]. int (length (Response c)))"
    by auto
  have "map (\<lambda>i. \<Sum>j \<le> i. int (length (Response ([chunkA, chunkB] ! j))))
         [0..<length [chunkA, chunkB]] = [3, 5]"
    by (simp add: sizes upt_rec [of 0] upt_rec [of 1] atMost_Suc numeral_2_eq_2)
  with r sizes have "\<exists>r. files (snd ?run) ''results.json'' = Some (Encoded r) \<and>
        map NRecords (Ingestion r) = [3, 5] \<and> NRecords (last (Ingestion r)) = 5"
    by (intro exI [of _ r]) simp
  with member returned calmEnv_chunkFiles sizes show ?thesis by (intro conjI)
qed


end
